theory Spec2Isabelle
  imports Main "HOL-Library.Multiset"
begin

section \<open>The host's Date object\<close>

text \<open>
  The schedule component keeps one mutable \<^verbatim>\<open>Date\<close> and drives it with
  \<^verbatim>\<open>getHours\<close>, \<^verbatim>\<open>setHours\<close>, \<^verbatim>\<open>getDate\<close>, \<^verbatim>\<open>setDate\<close> and \<^verbatim>\<open>setUTCHours\<close>.
  These are library functions; they are written here after the ECMAScript definitions
  of the same names. A Date is its time value: a number of milliseconds since the epoch,
  or NaN (Invalid Date), which is \<open>None\<close>. A number of the source is the integer it
  holds, with \<open>None\<close> for NaN.

  The time zone of the host is a parameter, the function \<open>LocalTZA\<close> of ECMAScript:
  \<open>zone t True\<close> is the offset of local time from UTC, in milliseconds, at the UTC time
  \<open>t\<close>, and \<open>zone t False\<close> the offset by which the local time \<open>t\<close> is resolved to UTC. With
  daylight saving the two depend on \<open>t\<close>.
\<close>

type_synonym number = "int option"
type_synonym time_value = "int option"
type_synonym zone = "int \<Rightarrow> bool \<Rightarrow> int"

text \<open>
  Numbers are IEEE doubles. Every integer up to \<open>2^53\<close> is a double; above, the doubles
  are \<open>doubleSpacing\<close> apart, and the result of an operation is the double nearest to
  the exact result, the one with the even mantissa at a tie. There is no infinity here:
  a result too large for a double stays a large integer, and like the infinity of the
  host it is far outside the range of \<^verbatim>\<open>Date\<close> and ends as an Invalid Date in
  \<open>TimeClip\<close>.
\<close>

fun doubleSpacing :: "nat \<Rightarrow> nat" where
  "doubleSpacing n = (if n < 9007199254740992 then 1 else 2 * doubleSpacing (n div 2))"

declare doubleSpacing.simps [simp del]

definition roundNat :: "nat \<Rightarrow> nat" where
  "roundNat n =
     (if 2 * (n mod doubleSpacing n) < doubleSpacing n then n - n mod doubleSpacing n
      else if doubleSpacing n < 2 * (n mod doubleSpacing n) then
        n - n mod doubleSpacing n + doubleSpacing n
      else if even ((n - n mod doubleSpacing n) div doubleSpacing n) then
        n - n mod doubleSpacing n
      else n - n mod doubleSpacing n + doubleSpacing n)"

definition asDouble :: "int \<Rightarrow> int" where
  "asDouble x = (if x < 0 then - int (roundNat (nat (- x))) else int (roundNat (nat x)))"

definition dadd :: "int \<Rightarrow> int \<Rightarrow> int" where
  "dadd a b = asDouble (a + b)"

definition dsub :: "int \<Rightarrow> int \<Rightarrow> int" where
  "dsub a b = asDouble (a - b)"

definition dmul :: "int \<Rightarrow> int \<Rightarrow> int" where
  "dmul a b = asDouble (a * b)"

definition msPerSecond :: int where "msPerSecond = 1000"
definition msPerMinute :: int where "msPerMinute = 60000"
definition msPerHour :: int where "msPerHour = 3600000"
definition msPerDay :: int where "msPerDay = 86400000"

definition Day :: "int \<Rightarrow> int" where
  "Day t = t div msPerDay"

definition TimeWithinDay :: "int \<Rightarrow> int" where
  "TimeWithinDay t = t mod msPerDay"

definition HourFromTime :: "int \<Rightarrow> int" where
  "HourFromTime t = (t div msPerHour) mod 24"

definition MinFromTime :: "int \<Rightarrow> int" where
  "MinFromTime t = (t div msPerMinute) mod 60"

definition SecFromTime :: "int \<Rightarrow> int" where
  "SecFromTime t = (t div msPerSecond) mod 60"

definition msFromTime :: "int \<Rightarrow> int" where
  "msFromTime t = t mod msPerSecond"

definition DaysInYear :: "int \<Rightarrow> int" where
  "DaysInYear y =
     (if y mod 4 \<noteq> 0 then 365
      else if y mod 100 \<noteq> 0 then 366
      else if y mod 400 \<noteq> 0 then 365
      else 366)"

definition DayFromYear :: "int \<Rightarrow> int" where
  "DayFromYear y =
     365 * (y - 1970) + (y - 1969) div 4 - (y - 1901) div 100 + (y - 1601) div 400"

text \<open>
  \<open>YearFromTime\<close> is the largest year whose first day is not after the day of \<open>t\<close>.
  It is computed from an estimate that is off by at most one year.
\<close>

definition yearOfDay :: "int \<Rightarrow> int \<Rightarrow> int" where
  "yearOfDay d y =
     (if DayFromYear (y + 1) \<le> d then y + 1
      else if DayFromYear y \<le> d then y
      else y - 1)"

definition YearFromTime :: "int \<Rightarrow> int" where
  "YearFromTime t = yearOfDay (Day t) (1970 + (Day t * 400) div 146097)"

definition InLeapYear :: "int \<Rightarrow> int" where
  "InLeapYear t = (if DaysInYear (YearFromTime t) = 366 then 1 else 0)"

definition DayWithinYear :: "int \<Rightarrow> int" where
  "DayWithinYear t = Day t - DayFromYear (YearFromTime t)"

text \<open>The month (0 to 11) of day \<open>d\<close> of a year, \<open>l\<close> being 1 in a leap year.\<close>

definition monthOfDay :: "int \<Rightarrow> int \<Rightarrow> int" where
  "monthOfDay d l =
     (if d < 31 then 0
      else if d < 59 + l then 1
      else if d < 90 + l then 2
      else if d < 120 + l then 3
      else if d < 151 + l then 4
      else if d < 181 + l then 5
      else if d < 212 + l then 6
      else if d < 243 + l then 7
      else if d < 273 + l then 8
      else if d < 304 + l then 9
      else if d < 334 + l then 10
      else 11)"

definition MonthFromTime :: "int \<Rightarrow> int" where
  "MonthFromTime t = monthOfDay (DayWithinYear t) (InLeapYear t)"

text \<open>The day of the year on which month \<open>m\<close> begins.\<close>

definition firstOfMonth :: "int \<Rightarrow> int \<Rightarrow> int" where
  "firstOfMonth m l =
     (if m = 0 then 0
      else if m = 1 then 31
      else if m = 2 then 59 + l
      else if m = 3 then 90 + l
      else if m = 4 then 120 + l
      else if m = 5 then 151 + l
      else if m = 6 then 181 + l
      else if m = 7 then 212 + l
      else if m = 8 then 243 + l
      else if m = 9 then 273 + l
      else if m = 10 then 304 + l
      else 334 + l)"

definition DateFromTime :: "int \<Rightarrow> int" where
  "DateFromTime t =
     DayWithinYear t - firstOfMonth (MonthFromTime t) (InLeapYear t) + 1"

definition MakeTime :: "int \<Rightarrow> int \<Rightarrow> int \<Rightarrow> int \<Rightarrow> int" where
  "MakeTime hour minute sec ms =
     dadd (dadd (dadd (dmul hour msPerHour) (dmul minute msPerMinute)) (dmul sec msPerSecond)) ms"

text \<open>
  \<open>MakeDay\<close> finds the day number of the first of month \<open>month mod 12\<close> of the year
  \<open>year + month div 12\<close> and counts \<open>date - 1\<close> days on from it.
\<close>

definition MakeDay :: "int \<Rightarrow> int \<Rightarrow> int \<Rightarrow> int" where
  "MakeDay year month date =
     dsub
       (dadd
          (DayFromYear (year + month div 12)
             + firstOfMonth (month mod 12) (if DaysInYear (year + month div 12) = 366 then 1 else 0))
          date)
       1"

definition MakeDate :: "int \<Rightarrow> int \<Rightarrow> int" where
  "MakeDate day time = dadd (dmul day msPerDay) time"

definition LocalTime :: "zone \<Rightarrow> int \<Rightarrow> int" where
  "LocalTime tz t = dadd t (tz t True)"

definition UTC :: "zone \<Rightarrow> int \<Rightarrow> int" where
  "UTC tz t = dsub t (tz t False)"

definition TimeClip :: "int \<Rightarrow> time_value" where
  "TimeClip time = (if \<bar>time\<bar> > 8640000000000000 then None else Some time)"

text \<open>The methods of \<^verbatim>\<open>Date.prototype\<close> the component calls, on the time value.\<close>

definition getDate :: "zone \<Rightarrow> time_value \<Rightarrow> number" where
  "getDate tz tv =
     (case tv of None \<Rightarrow> None | Some t \<Rightarrow> Some (DateFromTime (LocalTime tz t)))"

definition getHours :: "zone \<Rightarrow> time_value \<Rightarrow> number" where
  "getHours tz tv =
     (case tv of None \<Rightarrow> None | Some t \<Rightarrow> Some (HourFromTime (LocalTime tz t)))"

definition setHours :: "zone \<Rightarrow> time_value \<Rightarrow> number \<Rightarrow> time_value" where
  "setHours tz tv hour =
     (case tv of
        None \<Rightarrow> None
      | Some t0 \<Rightarrow>
          (case hour of
             None \<Rightarrow> None
           | Some h \<Rightarrow>
               (let t = LocalTime tz t0;
                    date = MakeDate (Day t)
                             (MakeTime h (MinFromTime t) (SecFromTime t) (msFromTime t))
                in TimeClip (UTC tz date))))"

definition setDate :: "zone \<Rightarrow> time_value \<Rightarrow> number \<Rightarrow> time_value" where
  "setDate tz tv date =
     (case tv of
        None \<Rightarrow> None
      | Some t0 \<Rightarrow>
          (case date of
             None \<Rightarrow> None
           | Some dt \<Rightarrow>
               (let t = LocalTime tz t0;
                    newDate = MakeDate (MakeDay (YearFromTime t) (MonthFromTime t) dt)
                                (TimeWithinDay t)
                in TimeClip (UTC tz newDate))))"

definition setUTCHours :: "time_value \<Rightarrow> int \<Rightarrow> time_value" where
  "setUTCHours tv h =
     (case tv of
        None \<Rightarrow> None
      | Some t \<Rightarrow>
          TimeClip (MakeDate (Day t)
                      (MakeTime h (MinFromTime t) (SecFromTime t) (msFromTime t))))"

text \<open>\<open>n + k\<close> on numbers: NaN plus anything is NaN.\<close>

definition num_add :: "number \<Rightarrow> int \<Rightarrow> number" where
  "num_add n k = (case n of None \<Rightarrow> None | Some x \<Rightarrow> Some (dadd x k))"

text \<open>\<open>a === b\<close> on numbers: NaN is equal to nothing, itself included.\<close>

definition strictEq :: "number \<Rightarrow> number \<Rightarrow> bool" where
  "strictEq a b = (case a of None \<Rightarrow> False | Some x \<Rightarrow> (case b of None \<Rightarrow> False | Some y \<Rightarrow> x = y))"

text \<open>
  Two hosts. One keeps the same offset at all times. The other is America/New_York
  around 1 November 2020: four hours behind UTC until 06:00 UTC of that day, five hours
  behind from then on; a local time before 02:00 of that day is resolved with the
  offset before the change, as ECMAScript prescribes for a repeated local time.
\<close>

definition fixedOffset :: "int \<Rightarrow> zone" where
  "fixedOffset off = (\<lambda>t isUTC. off)"



section \<open>Games and day buckets\<close>

text \<open>
  A \<^verbatim>\<open>Game\<close> is an object of the statistics API. The routine reads \<^verbatim>\<open>day\<close>,
  \<^verbatim>\<open>season\<close>, \<^verbatim>\<open>seriesIndex\<close> and \<^verbatim>\<open>gameStart\<close>; all further fields (teams,
  scores, weather, ...) are the extension part of the record. The schedule is a list
  of \<^verbatim>\<open>ChroniclerGame\<close> objects holding the game under \<^verbatim>\<open>data\<close>.
\<close>

record game =
  day :: int
  season :: int
  seriesIndex :: int
  gameStart :: bool

record gameWithVisibilityStatus = game +
  visibleOnSite :: bool

record 'g chroniclerGame =
  data :: 'g

text \<open>
  \<^verbatim>\<open>{ ...game, visibleOnSite }\<close>: a new object with every field of \<open>game\<close> copied
  and the field \<^verbatim>\<open>visibleOnSite\<close> added.
\<close>

definition withVisibility :: "'a game_scheme \<Rightarrow> bool \<Rightarrow> 'a gameWithVisibilityStatus_scheme" where
  "withVisibility g v =
     \<lparr>day = day g, season = season g, seriesIndex = seriesIndex g, gameStart = gameStart g,
      visibleOnSite = v, \<dots> = game.more g\<rparr>"

text \<open>
  A \<^verbatim>\<open>DailySchedule\<close>. The object \<^verbatim>\<open>gamesByHourOfDay\<close> is the list of its
  properties, each an hour key with its array of games; the key of a NaN hour is
  \<open>None\<close>. The list keeps the properties in the order they were added. JavaScript
  enumerates integer keys in ascending order instead; the component sorts the keys
  before it renders them, and nothing below depends on the order.
\<close>

record 'g dailySchedule =
  dayOfMonth :: number
  startingDate :: time_value
  gamesByHourOfDay :: "(number \<times> 'g list) list"

definition hasOwnProperty :: "('k \<times> 'v) list \<Rightarrow> 'k \<Rightarrow> bool" where
  "hasOwnProperty obj k = (k \<in> set (map fst obj))"

text \<open>
  \<^verbatim>\<open>obj[k].push(x)\<close>; the routine calls it for an own property \<open>k\<close> of \<open>obj\<close> only.
\<close>

fun push :: "('k \<times> 'v list) list \<Rightarrow> 'k \<Rightarrow> 'v \<Rightarrow> ('k \<times> 'v list) list" where
  "push [] k x = []"
| "push ((k', xs) # obj) k x =
     (if k' = k then (k', xs @ [x]) # obj else (k', xs) # push obj k x)"

text \<open>
  \<^verbatim>\<open>Array.prototype.find\<close> returns the first element that satisfies the predicate,
  and the routine then mutates that element in place; the model returns its position.
\<close>

fun findIndex :: "('a \<Rightarrow> bool) \<Rightarrow> 'a list \<Rightarrow> nat option" where
  "findIndex P [] = None"
| "findIndex P (x # xs) =
     (if P x then Some 0 else map_option Suc (findIndex P xs))"

section \<open>The schedule-bucketing routine\<close>

text \<open>The variables of the loop in \<^verbatim>\<open>seasonScheduleByDate\<close>.\<close>

record 'g loop_state =
  currGameDate :: time_value
  prevGame :: "'g option"
  previousGameHasStarted :: bool
  postseasonHasStarted :: bool
  postseasonRound :: int
  gamesByDay :: "'g dailySchedule list"

definition initial_state :: "time_value \<Rightarrow> 'g loop_state" where
  "initial_state seasonStartDate =
     \<lparr>currGameDate = seasonStartDate, prevGame = None, previousGameHasStarted = False,
      postseasonHasStarted = False, postseasonRound = 0, gamesByDay = []\<rparr>"

text \<open>\<^verbatim>\<open>prevGame?.day !== game.day\<close>: true while there is no previous game.\<close>

definition isNewGameDay :: "'a gameWithVisibilityStatus_scheme option \<Rightarrow> 'b game_scheme \<Rightarrow> bool" where
  "isNewGameDay prev g = (case prev of None \<Rightarrow> True | Some p \<Rightarrow> day p \<noteq> day g)"

text \<open>The first half of the loop body: the clock is advanced for the game.\<close>

definition advanceClock ::
  "zone \<Rightarrow> int \<Rightarrow> 'b game_scheme \<Rightarrow> ('a gameWithVisibilityStatus_scheme) loop_state
     \<Rightarrow> ('a gameWithVisibilityStatus_scheme) loop_state" where
  "advanceClock tz selectedSeason g st =
     (let d = currGameDate st; new = isNewGameDay (prevGame st) g
      in if new \<and> day g > 0 \<and> day g < 99 then
           (let advanceHourBy =
                  (if selectedSeason \<ge> 11 \<and> (day g = 27 \<or> day g = 72) then 1 + 1 else 1)
            in st\<lparr>currGameDate := setHours tz d (num_add (getHours tz d) advanceHourBy)\<rparr>)
         else if new \<and> day g \<ge> 99 then
           (if \<not> postseasonHasStarted st then
              (let st1 =
                     (if season g < 8 then
                        st\<lparr>currGameDate :=
                             setUTCHours (setDate tz d (num_add (getDate tz d) 1)) 13\<rparr>
                      else if season g \<ge> 8 then
                        (let d2 = setHours tz d (num_add (getHours tz d) 2)
                         in if day g > 99 then
                              st\<lparr>postseasonRound := postseasonRound st + 1,
                                 currGameDate :=
                                   setHours tz d2 (num_add (getHours tz d2) (dsub (day g) 99))\<rparr>
                            else st\<lparr>currGameDate := d2\<rparr>)
                      else st)
               in st1\<lparr>postseasonHasStarted := True,
                       postseasonRound := postseasonRound st1 + 1\<rparr>)
            else if season g < 8 then
              st\<lparr>currGameDate := setHours tz d (num_add (getHours tz d) 1)\<rparr>
            else if season g \<ge> 8 \<and> season g < 11 then
              (if postseasonRound st = 1 \<and> seriesIndex g = 1 then
                 st\<lparr>currGameDate :=
                      setUTCHours (setDate tz d (num_add (getDate tz d) 1)) 15,
                    postseasonRound := postseasonRound st + 1\<rparr>
               else st\<lparr>currGameDate := setHours tz d (num_add (getHours tz d) 1)\<rparr>)
            else if season g \<ge> 11 then
              (let st1 =
                     (if seriesIndex g = 1
                      then st\<lparr>postseasonRound := postseasonRound st + 1\<rparr> else st)
               in if seriesIndex g = 1 \<and> postseasonRound st1 = 3 then
                    st1\<lparr>currGameDate :=
                          setUTCHours (setDate tz d (num_add (getDate tz d) 1))
                            (if season g = 12 then 14 else 15)\<rparr>
                  else st1\<lparr>currGameDate := setHours tz d (num_add (getHours tz d) 1)\<rparr>)
            else st)
         else st)"

text \<open>
  The second half of the loop body. The game, with its visibility flag, goes into the
  bucket of the clock's day of month and, inside it, under the clock's hour: a new day
  bucket when \<^verbatim>\<open>find\<close> returns nothing, a new hour property when the day bucket
  has none for the hour, a push onto the hour's array otherwise.
\<close>

definition addToHour :: "'g dailySchedule \<Rightarrow> number \<Rightarrow> 'g \<Rightarrow> 'g dailySchedule" where
  "addToHour currDayGames currHourOfDay gameWithVisibilityStatus =
     (if \<not> hasOwnProperty (gamesByHourOfDay currDayGames) currHourOfDay then
        currDayGames\<lparr>gamesByHourOfDay :=
          gamesByHourOfDay currDayGames @ [(currHourOfDay, [gameWithVisibilityStatus])]\<rparr>
      else
        currDayGames\<lparr>gamesByHourOfDay :=
          push (gamesByHourOfDay currDayGames) currHourOfDay gameWithVisibilityStatus\<rparr>)"

definition addToBuckets ::
  "number \<Rightarrow> number \<Rightarrow> time_value \<Rightarrow> 'g \<Rightarrow> 'g dailySchedule list \<Rightarrow> 'g dailySchedule list" where
  "addToBuckets currDayOfMonth currHourOfDay date gameWithVisibilityStatus buckets =
     (case findIndex (\<lambda>dayGames. strictEq (dayOfMonth dayGames) currDayOfMonth) buckets of
        None \<Rightarrow>
          buckets @
            [\<lparr>dayOfMonth = currDayOfMonth, startingDate = date,
              gamesByHourOfDay = [(currHourOfDay, [gameWithVisibilityStatus])]\<rparr>]
      | Some i \<Rightarrow>
          buckets [i := addToHour (buckets ! i) currHourOfDay gameWithVisibilityStatus])"

definition placeGame ::
  "zone \<Rightarrow> 'a game_scheme \<Rightarrow> ('a gameWithVisibilityStatus_scheme) loop_state
     \<Rightarrow> ('a gameWithVisibilityStatus_scheme) loop_state" where
  "placeGame tz g st =
     (let currDayOfMonth = getDate tz (currGameDate st);
          currHourOfDay = getHours tz (currGameDate st);
          visibleOnSite = (previousGameHasStarted st \<or> gameStart g);
          gameWithVisibilityStatus = withVisibility g visibleOnSite
      in st\<lparr>previousGameHasStarted := gameStart g,
            gamesByDay :=
              addToBuckets currDayOfMonth currHourOfDay (currGameDate st)
                gameWithVisibilityStatus (gamesByDay st),
            prevGame := Some gameWithVisibilityStatus\<rparr>)"

definition loopBody ::
  "zone \<Rightarrow> int \<Rightarrow> ('a gameWithVisibilityStatus_scheme) loop_state
     \<Rightarrow> ('a game_scheme) chroniclerGame
     \<Rightarrow> ('a gameWithVisibilityStatus_scheme) loop_state" where
  "loopBody tz selectedSeason st c = placeGame tz (data c) (advanceClock tz selectedSeason (data c) st)"

text \<open>The loop over the schedule, from the start date of the selected season.\<close>

definition scheduleLoop ::
  "zone \<Rightarrow> int \<Rightarrow> time_value \<Rightarrow> ('a game_scheme) chroniclerGame list
     \<Rightarrow> ('a gameWithVisibilityStatus_scheme) loop_state" where
  "scheduleLoop tz selectedSeason seasonStartDate schedule =
     foldl (loopBody tz selectedSeason) (initial_state seasonStartDate) schedule"


text \<open>
  What the loop holds at the end of each iteration, in input order: the running
  timestamp \<^verbatim>\<open>currGameDate\<close> and the stored copy of the game, \<^verbatim>\<open>prevGame\<close>.
\<close>

fun trace ::
  "zone \<Rightarrow> int \<Rightarrow> ('a gameWithVisibilityStatus_scheme) loop_state
     \<Rightarrow> ('a game_scheme) chroniclerGame list
     \<Rightarrow> (time_value \<times> 'a gameWithVisibilityStatus_scheme) list" where
  "trace tz selectedSeason st [] = []"
| "trace tz selectedSeason st (c # cs) =
     (case prevGame (loopBody tz selectedSeason st c) of
        None \<Rightarrow> []
      | Some g \<Rightarrow> [(currGameDate (loopBody tz selectedSeason st c), g)])
     @ trace tz selectedSeason (loopBody tz selectedSeason st c) cs"

text \<open>Reading the buckets: the games under hour \<open>h\<close> of the buckets of day \<open>d\<close>, and all games.\<close>

definition hourGames :: "'g dailySchedule \<Rightarrow> number \<Rightarrow> 'g list" where
  "hourGames b h = concat (map snd (filter (\<lambda>e. fst e = h) (gamesByHourOfDay b)))"

definition gamesAt :: "'g dailySchedule list \<Rightarrow> number \<Rightarrow> number \<Rightarrow> 'g list" where
  "gamesAt buckets d h =
     concat (map (\<lambda>b. hourGames b h) (filter (\<lambda>b. dayOfMonth b = d) buckets))"

definition bucketGames :: "'g dailySchedule \<Rightarrow> 'g list" where
  "bucketGames b = concat (map snd (gamesByHourOfDay b))"

definition allGames :: "'g dailySchedule list \<Rightarrow> 'g list" where
  "allGames buckets = concat (map bucketGames buckets)"

text \<open>
  No two buckets have the same day-of-month number, and no bucket has two properties
  for the same hour.
\<close>

definition distinctDays :: "'g dailySchedule list \<Rightarrow> bool" where
  "distinctDays buckets = distinct (filter (\<lambda>d. d \<noteq> None) (map dayOfMonth buckets))"

definition distinctHours :: "'g dailySchedule list \<Rightarrow> bool" where
  "distinctHours buckets = (\<forall>b \<in> set buckets. distinct (map fst (gamesByHourOfDay b)))"

text \<open>The copy without its \<^verbatim>\<open>visibleOnSite\<close> field.\<close>

definition withoutVisibility :: "'a gameWithVisibilityStatus_scheme \<Rightarrow> 'a game_scheme" where
  "withoutVisibility g =
     \<lparr>day = day g, season = season g, seriesIndex = seriesIndex g, gameStart = gameStart g,
      \<dots> = gameWithVisibilityStatus.more g\<rparr>"

text \<open>
  Names for what the loop holds around game \<open>j\<close> of the list \<open>gs\<close> (counted from 0): the
  running timestamp at which game \<open>j\<close> is stored, the copy of game \<open>j\<close> that is stored,
  and the buckets as they are before game \<open>j\<close> is processed.
\<close>

abbreviation stampOf ::
  "zone \<Rightarrow> int \<Rightarrow> time_value \<Rightarrow> ('a game_scheme) chroniclerGame list \<Rightarrow> nat \<Rightarrow> time_value" where
  "stampOf z sel start gs j \<equiv> currGameDate (scheduleLoop z sel start (take (Suc j) gs))"

abbreviation storedCopy ::
  "('a game_scheme) chroniclerGame list \<Rightarrow> nat \<Rightarrow> 'a gameWithVisibilityStatus_scheme" where
  "storedCopy gs j \<equiv>
     withVisibility (data (gs ! j)) (gameStart (data (gs ! j)) \<or> (0 < j \<and> gameStart (data (gs ! (j - 1)))))"

abbreviation bucketsBefore ::
  "zone \<Rightarrow> int \<Rightarrow> time_value \<Rightarrow> ('a game_scheme) chroniclerGame list \<Rightarrow> nat
     \<Rightarrow> ('a gameWithVisibilityStatus_scheme) dailySchedule list" where
  "bucketsBefore z sel start gs j \<equiv> gamesByDay (scheduleLoop z sel start (take j gs))"

section \<open>The \<^verbatim>\<open>TeamSchedule\<close> component\<close>

text \<open>
  The props of the component; \<open>None\<close> is \<^verbatim>\<open>null\<close> or \<^verbatim>\<open>undefined\<close>.
  \<^verbatim>\<open>seasonStartDates\<close> maps a season to its start date string. The string is parsed
  by the host's \<^verbatim>\<open>Date\<close> constructor, a parameter \<open>parseDate\<close> here, after
  \<^verbatim>\<open>" UTC"\<close> is appended; a season without an entry reads as \<^verbatim>\<open>undefined\<close>, and
  the string \<^verbatim>\<open>"undefined UTC"\<close> parses to an Invalid Date. The constructor clips the
  parsed time to the range of \<^verbatim>\<open>Date\<close>.
\<close>

record ('g, 't) teamScheduleProps =
  schedule :: "'g chroniclerGame list option"
  scheduleIsValidating :: bool
  seasonStartDates :: "(int \<Rightarrow> string option) option"
  selectedSeason :: "int option"
  team :: "'t option"
  teams :: "'t list option"

definition seasonStartDate :: "(string \<Rightarrow> time_value) \<Rightarrow> (int \<Rightarrow> string option) \<Rightarrow> int \<Rightarrow> time_value" where
  "seasonStartDate parseDate dates sel =
     (case parseDate ((case dates sel of None \<Rightarrow> ''undefined'' | Some s \<Rightarrow> s) @ '' UTC'') of
        None \<Rightarrow> None
      | Some tv \<Rightarrow> TimeClip tv)"

definition seasonScheduleByDate ::
  "zone \<Rightarrow> (string \<Rightarrow> time_value) \<Rightarrow> ('a game_scheme, 't) teamScheduleProps
     \<Rightarrow> ('a gameWithVisibilityStatus_scheme) dailySchedule list option" where
  "seasonScheduleByDate tz parseDate props =
     (if scheduleIsValidating props then None
      else case schedule props of
        None \<Rightarrow> None
      | Some sched \<Rightarrow>
          (case selectedSeason props of
             None \<Rightarrow> None
           | Some sel \<Rightarrow>
               (case seasonStartDates props of
                  None \<Rightarrow> None
                | Some dates \<Rightarrow>
                    Some (gamesByDay
                            (scheduleLoop tz sel (seasonStartDate parseDate dates sel) sched)))))"

text \<open>
  What the component returns: the loading skeleton, or the daily schedule (with the key
  and the toggle) for the buckets, the flag of \<^verbatim>\<open>useForbiddenKnowledge\<close>, the team
  and the teams.
\<close>

datatype ('g, 't) teamScheduleView =
  TeamDailyScheduleLoading
| TeamDailySchedule "'g dailySchedule list" bool 't "'t list"

definition TeamSchedule ::
  "zone \<Rightarrow> (string \<Rightarrow> time_value) \<Rightarrow> bool \<Rightarrow> ('a game_scheme, 't) teamScheduleProps
     \<Rightarrow> ('a gameWithVisibilityStatus_scheme, 't) teamScheduleView" where
  "TeamSchedule tz parseDate showForbiddenKnowledge props =
     (if scheduleIsValidating props then TeamDailyScheduleLoading
      else case seasonScheduleByDate tz parseDate props of
        None \<Rightarrow> TeamDailyScheduleLoading
      | Some dailySchedule \<Rightarrow>
          (case team props of
             None \<Rightarrow> TeamDailyScheduleLoading
           | Some t \<Rightarrow>
               (case teams props of
                  None \<Rightarrow> TeamDailyScheduleLoading
                | Some ts \<Rightarrow> TeamDailySchedule dailySchedule showForbiddenKnowledge t ts)))"

section \<open>Search results and the team batting table\<close>

text \<open>
  Rendered output is a tree of elements: text, or a component with the props that are
  text and its children.
\<close>

datatype element =
  Text string
| Node string "(string \<times> string) list" "element list"

datatype js_error = TypeError

record searchResult =
  objectID :: string
  anchor :: string
  title :: string

definition resultBox :: "searchResult \<Rightarrow> element" where
  "resultBox result =
     Node ''Box'' [(''key'', objectID result)]
       [Node ''Link'' [(''href'', anchor result)] [Text (title result)]]"

definition resultGroupBox :: "string \<Rightarrow> searchResult list \<Rightarrow> element" where
  "resultGroupBox resultGroup results =
     Node ''Box'' [(''key'', resultGroup)]
       (Node ''Heading'' [(''as'', ''h2''), (''size'', ''md''), (''textTransform'', ''capitalize'')]
          [Text resultGroup]
        # map resultBox results)"

text \<open>
  The result object is the list of its properties. A group whose value is
  \<^verbatim>\<open>undefined\<close> (\<open>None\<close>) has no \<^verbatim>\<open>map\<close>: rendering it throws.
\<close>

fun resultGroups :: "(string \<times> searchResult list option) list \<Rightarrow> js_error + element list" where
  "resultGroups [] = Inr []"
| "resultGroups ((resultGroup, v) # rest) =
     (case v of
        None \<Rightarrow> Inl TypeError
      | Some results \<Rightarrow>
          (case resultGroups rest of
             Inl e \<Rightarrow> Inl e
           | Inr es \<Rightarrow> Inr (resultGroupBox resultGroup results # es)))"

definition algoliaLogo :: element where
  "algoliaLogo =
     Node ''Flex'' []
       [Node ''Link'' [(''display'', ''inlineBlock''), (''href'', ''https://algolia.com'')]
          [Node ''Image''
             [(''alt'', ''Search by Algolia''), (''height'', ''16px''),
              (''src'', ''/search-by-algolia.svg'')] []]]"

definition SearchResults ::
  "bool \<Rightarrow> bool \<Rightarrow> (string \<times> searchResult list option) list \<Rightarrow> js_error + element" where
  "SearchResults isError isLoading searchResults =
     (if isError then
        Inr (Node ''Box'' []
          [Text ''Sorry, we're having trouble processing your search. Please refresh the page.''])
      else if isLoading then
        Inr (Node ''Box'' [] [Text ''Loading search results...''])
      else if length (map fst searchResults) = 0 then
        Inr (Node ''Fragment'' [] [Node ''Box'' [] [Text ''No results found.''], algoliaLogo])
      else
        (case resultGroups searchResults of
           Inl e \<Rightarrow> Inl e
         | Inr groups \<Rightarrow> Inr (Node ''Fragment'' [] [Node ''Fragment'' [] groups, algoliaLogo])))"

text \<open>
  \<^verbatim>\<open>React.useMemo(create, deps)\<close>. The hook keeps, from one render of a component to
  the next, the dependencies and the value of the render that last computed the value;
  the cell is \<open>None\<close> at the first render. With dependencies equal to the kept ones the
  kept value is returned and \<^verbatim>\<open>create\<close> is not called. The model returns the value
  and the cell for the next render.
\<close>

type_synonym ('d, 'v) memoCell = "('d \<times> 'v) option"

definition useMemo :: "('d, 'v) memoCell \<Rightarrow> (unit \<Rightarrow> 'v) \<Rightarrow> 'd \<Rightarrow> 'v \<times> ('d, 'v) memoCell" where
  "useMemo cell create deps =
     (case cell of
        None \<Rightarrow> (create (), Some (deps, create ()))
      | Some (prevDeps, prevValue) \<Rightarrow>
          if prevDeps = deps then (prevValue, cell) else (create (), Some (deps, create ())))"

text \<open>
  The team batting table. \<^verbatim>\<open>splits\<close> is \<open>None\<close> when it is not an array. The table
  shows \<^verbatim>\<open>data\<close>, the memo of \<^verbatim>\<open>battingStats.splits\<close> with the dependencies
  \<^verbatim>\<open>isPostseason\<close>, \<^verbatim>\<open>splitView\<close> and \<^verbatim>\<open>statTargetName\<close>; \<^verbatim>\<open>battingStats\<close> is not
  among them. The first argument is the cell of that memo, and the result is the element
  with the cell for the next render.
\<close>

record 's teamStats =
  splits :: "'s list option"

definition TeamBattingStatTable ::
  "(bool \<times> string \<times> string, 's list option) memoCell \<Rightarrow> 's teamStats \<Rightarrow> bool \<Rightarrow> string \<Rightarrow> string
     \<Rightarrow> element \<times> (bool \<times> string \<times> string, 's list option) memoCell" where
  "TeamBattingStatTable cell battingStats isPostseason splitView statTargetName =
     (let (rows, cell') =
            useMemo cell (\<lambda>_. splits battingStats) (isPostseason, splitView, statTargetName)
      in (Node ''Table'' []
            [Node ''Flex'' [(''alignContent'', ''baseline''), (''justifyContent'', ''space-between'')]
               [Node ''Table.Heading'' [(''level'', ''h3''), (''size'', ''sm'')] [Text ''Batting Stats''],
                Node ''Flex'' [(''alignItems'', ''center'')]
                  [Node ''Table.CSVExport''
                     [(''filename'',
                       statTargetName @ '' '' @ splitView @ '' ''
                         @ (if isPostseason then ''Postseason'' else ''Standard'')
                         @ '' Batting Stats.csv'')] []]],
             (case rows of
                None \<Rightarrow> Text ''Sorry, no results available for this season.''
              | Some rs \<Rightarrow>
                  if length rs > 0 then Node ''Table.Content'' [] []
                  else Text ''Sorry, no results available for this season.'')],
          cell'))"

section \<open>The team-schedule route\<close>

text \<open>
  A \<^verbatim>\<open>Team\<close> of the API; the routine reads \<^verbatim>\<open>url_slug\<close>. The argument of
  \<open>getStaticPaths\<close> is what the \<^verbatim>\<open>try\<close> block leaves in \<^verbatim>\<open>teams\<close>: the list the
  API returned, or \<open>None\<close> (\<^verbatim>\<open>undefined\<close>) when the fetch threw, and then
  \<^verbatim>\<open>teams.map\<close> throws.
\<close>

record teamInfo =
  url_slug :: string

record staticPaths =
  paths :: "string list"
  fallback :: bool

definition getStaticPaths :: "'a teamInfo_scheme list option \<Rightarrow> js_error + staticPaths" where
  "getStaticPaths fetched =
     (case fetched of
        None \<Rightarrow> Inl TypeError
      | Some ts \<Rightarrow>
          Inr \<lparr>paths = map (\<lambda>t. ''/teams/'' @ url_slug t @ ''/schedule'') ts,
               fallback = False\<rparr>)"

text \<open>
  The requests of the page for a route parameter \<^verbatim>\<open>teamSlug\<close>: the keys of the four
  \<^verbatim>\<open>useSWR\<close> calls of \<^verbatim>\<open>TeamSchedulePage\<close>, and the paths \<^verbatim>\<open>getStaticProps\<close>
  fetches, each with its fetcher.\<close>

definition TeamSchedulePage_keys :: "string \<Rightarrow> (string \<times> string) list" where
  "TeamSchedulePage_keys teamSlug =
     [(''default'', ''/teams/'' @ teamSlug @ ''/schedule.json''),
      (''default'', ''/seasonStartDates.json''),
      (''dbApiFetcher'', ''/teams/'' @ teamSlug),
      (''dbApiFetcher'', ''/teams'')]"

definition getStaticProps_requests :: "string \<Rightarrow> (string \<times> string) list" where
  "getStaticProps_requests teamSlug =
     [(''apiFetcher'', ''/teams/'' @ teamSlug @ ''/schedule.json''),
      (''apiFetcher'', ''/seasonStartDates.json''),
      (''dbApiFetcher'', ''/teams/'' @ teamSlug),
      (''dbApiFetcher'', ''/teams'')]"

section \<open>Facts about the Date model\<close>

lemma doubleSpacing_small: "n < 9007199254740992 \<Longrightarrow> doubleSpacing n = 1"
  by (simp add: doubleSpacing.simps)

lemma roundNat_small: "n < 9007199254740992 \<Longrightarrow> roundNat n = n"
  by (simp add: roundNat_def doubleSpacing_small)

lemma asDouble_exact: "\<bar>x\<bar> < 9007199254740992 \<Longrightarrow> asDouble x = x"
  by (simp add: asDouble_def roundNat_small)

lemma dadd_exact: "\<bar>a + b\<bar> < 9007199254740992 \<Longrightarrow> dadd a b = a + b"
  by (simp add: dadd_def asDouble_exact)

lemma dsub_exact: "\<bar>a - b\<bar> < 9007199254740992 \<Longrightarrow> dsub a b = a - b"
  by (simp add: dsub_def asDouble_exact)

lemma dmul_exact: "\<bar>a * b\<bar> < 9007199254740992 \<Longrightarrow> dmul a b = a * b"
  by (simp add: dmul_def asDouble_exact)

lemma field_ranges:
  "0 \<le> HourFromTime t" "HourFromTime t \<le> 23"
  "0 \<le> MinFromTime t" "MinFromTime t \<le> 59"
  "0 \<le> SecFromTime t" "SecFromTime t \<le> 59"
  "0 \<le> msFromTime t" "msFromTime t \<le> 999"
  "0 \<le> TimeWithinDay t" "TimeWithinDay t < msPerDay"
  by (simp_all add: HourFromTime_def MinFromTime_def SecFromTime_def msFromTime_def
      TimeWithinDay_def msPerSecond_def msPerDay_def)

lemma hour_decomp:
  "t mod msPerHour = MinFromTime t * msPerMinute + SecFromTime t * msPerSecond + msFromTime t"
proof -
  have a: "t mod (60000 * 60) = 60000 * (t div 60000 mod 60) + t mod 60000"
    by (rule zmod_zmult2_eq) simp
  have b: "t mod (1000 * 60) = 1000 * (t div 1000 mod 60) + t mod 1000"
    by (rule zmod_zmult2_eq) simp
  from a b show ?thesis
    by (simp add: MinFromTime_def SecFromTime_def msFromTime_def
        msPerHour_def msPerMinute_def msPerSecond_def)
qed

lemma time_decomp:
  "t = Day t * msPerDay + HourFromTime t * msPerHour + t mod msPerHour"
proof -
  have a: "t mod (3600000 * 24) = 3600000 * (t div 3600000 mod 24) + t mod 3600000"
    by (rule zmod_zmult2_eq) simp
  have "t = t div 86400000 * 86400000 + t mod 86400000"
    by simp
  with a show ?thesis
    by (simp add: Day_def HourFromTime_def msPerDay_def msPerHour_def)
qed

lemma day_decomp: "t = Day t * msPerDay + TimeWithinDay t"
  by (simp add: Day_def TimeWithinDay_def)

lemma monthOfDay_range: "0 \<le> monthOfDay d l \<and> monthOfDay d l \<le> 11"
  by (simp add: monthOfDay_def)

lemma div_lower: "0 < c \<Longrightarrow> c * (x div c) \<le> (x::int)"
  by (metis mult.commute div_mult_mod_eq pos_mod_sign le_add_same_cancel1)

lemma div_upper: "0 < c \<Longrightarrow> (x::int) < c * (x div c) + c"
  by (metis mult.commute div_mult_mod_eq pos_mod_bound add_less_cancel_left)

lemma DayFromYear_upper: "400 * DayFromYear y \<le> 146097 * (y - 1970) + 589"
  using div_lower [of 4 "y - 1969"] div_upper [of 100 "y - 1901"] div_lower [of 400 "y - 1601"]
  by (simp add: DayFromYear_def)

lemma DayFromYear_lower: "146097 * (y - 1970) - 506 \<le> 400 * DayFromYear y"
  using div_upper [of 4 "y - 1969"] div_lower [of 100 "y - 1901"] div_upper [of 400 "y - 1601"]
  by (simp add: DayFromYear_def)

lemma YearFromTime_largest:
  "DayFromYear (YearFromTime t) \<le> Day t \<and> Day t < DayFromYear (YearFromTime t + 1)"
proof -
  define d where "d = Day t"
  define q where "q = (d * 400) div 146097"
  have q1: "146097 * q \<le> d * 400"
    unfolding q_def by (rule div_lower) simp
  have q2: "d * 400 < 146097 * q + 146097"
    unfolding q_def by (rule div_upper) simp
  have lo: "DayFromYear (1970 + q - 1) \<le> d"
    using DayFromYear_upper [of "1970 + q - 1"] q1 by simp
  have hi: "d < DayFromYear (1970 + q + 1 + 1)"
    using DayFromYear_lower [of "1970 + q + 1 + 1"] q2 by simp
  show ?thesis
    using lo hi by (simp add: YearFromTime_def yearOfDay_def d_def [symmetric] q_def [symmetric])
qed

lemma Day_next: "Day (t + msPerDay) = Day t + 1"
  by (simp add: Day_def msPerDay_def)

lemma mod_hour_next: "(t + msPerDay) mod msPerHour = t mod msPerHour"
proof -
  have "(t + 24 * 3600000) mod 3600000 = t mod 3600000"
    by (rule mod_mult_self1 [of t 24 3600000, simplified mult.commute])
  then show ?thesis by (simp add: msPerDay_def msPerHour_def)
qed


lemma Day_bound: "\<bar>Day t * msPerDay\<bar> \<le> \<bar>t\<bar> + msPerDay"
  using day_decomp [of t] field_ranges(9,10) [of t] by linarith

lemma Day_small: "\<bar>Day t\<bar> \<le> \<bar>t\<bar> + msPerDay"
proof -
  have "\<bar>Day t\<bar> \<le> \<bar>Day t\<bar> * msPerDay"
    by (simp add: msPerDay_def)
  also have "\<dots> = \<bar>Day t * msPerDay\<bar>"
    by (simp add: abs_mult msPerDay_def)
  finally show ?thesis using Day_bound [of t] by linarith
qed

lemma MakeTime_exact:
  assumes "0 \<le> h" "(h + 1) * msPerHour < 9007199254740992"
    "0 \<le> m" "m \<le> 59" "0 \<le> s" "s \<le> 59" "0 \<le> ms" "ms \<le> 999"
  shows "MakeTime h m s ms = h * msPerHour + m * msPerMinute + s * msPerSecond + ms"
proof -
  from assms have b: "0 \<le> h * msPerHour" "h * msPerHour + 3600000 < 9007199254740992"
    "0 \<le> m * msPerMinute" "m * msPerMinute \<le> 3540000"
    "0 \<le> s * msPerSecond" "s * msPerSecond \<le> 59000"
    by (simp_all add: msPerHour_def msPerMinute_def msPerSecond_def algebra_simps)
  have 1: "dmul h msPerHour = h * msPerHour" using b by (intro dmul_exact) linarith
  have 2: "dmul m msPerMinute = m * msPerMinute" using b by (intro dmul_exact) linarith
  have 3: "dmul s msPerSecond = s * msPerSecond" using b by (intro dmul_exact) linarith
  have 4: "dadd (h * msPerHour) (m * msPerMinute) = h * msPerHour + m * msPerMinute"
    using b by (intro dadd_exact) linarith
  have 5: "dadd (h * msPerHour + m * msPerMinute) (s * msPerSecond)
             = h * msPerHour + m * msPerMinute + s * msPerSecond"
    using b by (intro dadd_exact) linarith
  have 6: "dadd (h * msPerHour + m * msPerMinute + s * msPerSecond) ms
             = h * msPerHour + m * msPerMinute + s * msPerSecond + ms"
    using b assms(7,8) by (intro dadd_exact) linarith
  show ?thesis by (simp add: MakeTime_def 1 2 3 4 5 6)
qed

lemma MakeDate_exact:
  assumes "\<bar>d * msPerDay\<bar> < 9007199254740992" "\<bar>d * msPerDay + time\<bar> < 9007199254740992"
  shows "MakeDate d time = d * msPerDay + time"
  using assms by (simp add: MakeDate_def dmul_exact dadd_exact)

lemma DayWithinYear_range: "0 \<le> DayWithinYear t \<and> DayWithinYear t \<le> 367"
proof -
  let ?y = "YearFromTime t"
  have a: "DayFromYear ?y \<le> Day t" "Day t < DayFromYear (?y + 1)"
    using YearFromTime_largest [of t] by simp_all
  have "400 * DayFromYear (?y + 1) - 400 * DayFromYear ?y \<le> 146097 + 589 + 506"
    using DayFromYear_upper [of "?y + 1"] DayFromYear_lower [of ?y] by simp
  with a show ?thesis by (simp add: DayWithinYear_def)
qed

lemma firstOfMonth_range: "0 \<le> l \<Longrightarrow> l \<le> 1 \<Longrightarrow> 0 \<le> firstOfMonth m l \<and> firstOfMonth m l \<le> 335"
  by (simp add: firstOfMonth_def)

lemma DateFromTime_range: "\<bar>DateFromTime t\<bar> \<le> 400"
proof -
  have "0 \<le> firstOfMonth (MonthFromTime t) (InLeapYear t) \<and> firstOfMonth (MonthFromTime t) (InLeapYear t) \<le> 335"
    by (rule firstOfMonth_range) (simp_all add: InLeapYear_def)
  with DayWithinYear_range [of t] show ?thesis
    by (simp add: DateFromTime_def abs_le_iff)
qed

lemma MakeDay_roundtrip:
  assumes "\<bar>Day t\<bar> < 9000000000000000" "\<bar>k\<bar> \<le> 1000"
  shows "MakeDay (YearFromTime t) (MonthFromTime t) (DateFromTime t + k) = Day t + k"
proof -
  have r: "0 \<le> MonthFromTime t" "MonthFromTime t \<le> 11"
    using monthOfDay_range by (simp_all add: MonthFromTime_def)
  then have m: "MonthFromTime t div 12 = 0" "MonthFromTime t mod 12 = MonthFromTime t"
    by simp_all
  let ?first = "DayFromYear (YearFromTime t)
     + firstOfMonth (MonthFromTime t) (if DaysInYear (YearFromTime t) = 366 then 1 else 0)"
  have s: "?first + (DateFromTime t + k) = Day t + k + 1"
    by (simp add: DateFromTime_def InLeapYear_def DayWithinYear_def)
  have 1: "dadd ?first (DateFromTime t + k) = Day t + k + 1"
    unfolding dadd_def s using assms by (intro asDouble_exact) linarith
  have 2: "dsub (Day t + k + 1) 1 = Day t + k"
    using assms by (simp add: dsub_exact)
  show ?thesis
    by (simp add: MakeDay_def m 1 2)
qed

text \<open>
  On a host with a fixed offset of at most a day, reading a field, adding to it and
  writing it back moves the time value by that much.
\<close>

lemma LocalTime_fixed:
  "\<bar>off\<bar> \<le> msPerDay \<Longrightarrow> \<bar>t\<bar> \<le> 8640000000000000 \<Longrightarrow> LocalTime (fixedOffset off) t = t + off"
  by (simp add: LocalTime_def fixedOffset_def dadd_exact msPerDay_def)

lemma UTC_fixed:
  "\<bar>off\<bar> \<le> msPerDay \<Longrightarrow> \<bar>t\<bar> \<le> 9000100000000000 \<Longrightarrow> UTC (fixedOffset off) t = t - off"
  by (simp add: UTC_def fixedOffset_def dsub_exact msPerDay_def)

lemma getHours_fixed:
  "\<bar>off\<bar> \<le> msPerDay \<Longrightarrow> \<bar>t\<bar> \<le> 8640000000000000 \<Longrightarrow>
     getHours (fixedOffset off) (Some t) = Some (HourFromTime (t + off))"
  by (simp add: getHours_def LocalTime_fixed)

lemma getDate_fixed:
  "\<bar>off\<bar> \<le> msPerDay \<Longrightarrow> \<bar>t\<bar> \<le> 8640000000000000 \<Longrightarrow>
     getDate (fixedOffset off) (Some t) = Some (DateFromTime (t + off))"
  by (simp add: getDate_def LocalTime_fixed)

lemma setHours_getHours:
  assumes "\<bar>off\<bar> \<le> msPerDay" "\<bar>t\<bar> \<le> 8640000000000000" "0 \<le> k"
    and "(k + 24) * msPerHour < 9007199254740992"
    and "t + k * msPerHour \<le> 9000000000000000"
  shows "setHours (fixedOffset off) (Some t) (num_add (getHours (fixedOffset off) (Some t)) k)
           = TimeClip (t + k * msPerHour)"
proof -
  let ?lt = "t + off"
  let ?h = "HourFromTime ?lt + k"
  note f = field_ranges [of ?lt]
  have hk: "dadd (HourFromTime ?lt) k = ?h"
    using assms(3,4) f(1,2) by (intro dadd_exact) (simp add: msPerHour_def)
  have mt: "MakeTime ?h (MinFromTime ?lt) (SecFromTime ?lt) (msFromTime ?lt)
      = ?h * msPerHour + MinFromTime ?lt * msPerMinute + SecFromTime ?lt * msPerSecond + msFromTime ?lt"
    using assms(3,4) f by (intro MakeTime_exact) (simp_all add: msPerHour_def)
  have v: "Day ?lt * msPerDay + (?h * msPerHour + MinFromTime ?lt * msPerMinute
      + SecFromTime ?lt * msPerSecond + msFromTime ?lt) = ?lt + k * msPerHour"
    using time_decomp [of ?lt] hour_decomp [of ?lt] by (simp add: algebra_simps)
  have md: "MakeDate (Day ?lt) (?h * msPerHour + MinFromTime ?lt * msPerMinute
      + SecFromTime ?lt * msPerSecond + msFromTime ?lt) = ?lt + k * msPerHour"
    unfolding v [symmetric]
    using Day_bound [of ?lt] assms v by (intro MakeDate_exact) (simp_all add: msPerDay_def msPerHour_def)
  have u: "UTC (fixedOffset off) (?lt + k * msPerHour) = t + k * msPerHour"
    using assms by (simp add: UTC_fixed msPerDay_def msPerHour_def)
  show ?thesis
    using assms(1,2)
    by (simp add: setHours_def num_add_def getHours_fixed LocalTime_fixed hk mt md u)
qed

lemma setDate_getDate:
  assumes "\<bar>off\<bar> \<le> msPerDay" "\<bar>t\<bar> \<le> 8640000000000000" "\<bar>k\<bar> \<le> 1000"
  shows "setDate (fixedOffset off) (Some t) (num_add (getDate (fixedOffset off) (Some t)) k)
           = TimeClip (t + k * msPerDay)"
proof -
  let ?lt = "t + off"
  have dk: "dadd (DateFromTime ?lt) k = DateFromTime ?lt + k"
    using DateFromTime_range [of ?lt] assms(3) by (intro dadd_exact) linarith
  have ds: "\<bar>Day ?lt\<bar> < 9000000000000000"
    using Day_small [of ?lt] assms by (simp add: msPerDay_def)
  have v: "(Day ?lt + k) * msPerDay + TimeWithinDay ?lt = ?lt + k * msPerDay"
    using day_decomp [of ?lt] by (simp add: algebra_simps)
  have md: "MakeDate (Day ?lt + k) (TimeWithinDay ?lt) = ?lt + k * msPerDay"
    unfolding v [symmetric]
    using Day_bound [of ?lt] assms v
    by (intro MakeDate_exact) (simp_all add: msPerDay_def algebra_simps)
  have u: "UTC (fixedOffset off) (?lt + k * msPerDay) = t + k * msPerDay"
    using assms by (simp add: UTC_fixed msPerDay_def)
  show ?thesis
    using assms(1,2)
    by (simp add: setDate_def num_add_def getDate_fixed LocalTime_fixed dk
        MakeDay_roundtrip [OF ds assms(3)] md u)
qed

lemma setUTCHours_Some:
  assumes "\<bar>t\<bar> \<le> 8640000000000000" "0 \<le> h" "h \<le> 24"
  shows "setUTCHours (Some t) h = TimeClip (Day t * msPerDay + h * msPerHour + t mod msPerHour)"
proof -
  note f = field_ranges [of t]
  have mt: "MakeTime h (MinFromTime t) (SecFromTime t) (msFromTime t)
      = h * msPerHour + MinFromTime t * msPerMinute + SecFromTime t * msPerSecond + msFromTime t"
    using assms f by (intro MakeTime_exact) (simp_all add: msPerHour_def)
  have m: "0 \<le> t mod msPerHour" "t mod msPerHour < msPerHour"
    by (simp_all add: msPerHour_def)
  have md: "MakeDate (Day t) (h * msPerHour + t mod msPerHour)
      = Day t * msPerDay + (h * msPerHour + t mod msPerHour)"
    using Day_bound [of t] assms m by (intro MakeDate_exact) (simp_all add: msPerDay_def msPerHour_def)
  have e: "h * msPerHour + MinFromTime t * msPerMinute + SecFromTime t * msPerSecond + msFromTime t
      = h * msPerHour + t mod msPerHour"
    using hour_decomp [of t] by simp
  have "setUTCHours (Some t) h
      = TimeClip (MakeDate (Day t) (MakeTime h (MinFromTime t) (SecFromTime t) (msFromTime t)))"
    by (simp add: setUTCHours_def)
  also have "\<dots> = TimeClip (Day t * msPerDay + (h * msPerHour + t mod msPerHour))"
    by (simp only: mt e md)
  finally show ?thesis by (simp add: add.assoc)
qed

lemma setHours_Invalid: "setHours tz None h = None"
  by (simp add: setHours_def)

lemma setDate_Invalid: "setDate tz None n = None"
  by (simp add: setDate_def)

lemma setUTCHours_Invalid: "setUTCHours None h = None"
  by (simp add: setUTCHours_def)

lemma next_day_at_hour:
  assumes "\<bar>off\<bar> \<le> msPerDay" "\<bar>t\<bar> \<le> 8640000000000000" "0 \<le> h" "h \<le> 24"
  shows "setUTCHours (setDate (fixedOffset off) (Some t) (num_add (getDate (fixedOffset off) (Some t)) 1)) h =
     (if \<bar>t + msPerDay\<bar> > 8640000000000000 then None
      else TimeClip ((Day t + 1) * msPerDay + h * msPerHour + t mod msPerHour))"
proof -
  have "setDate (fixedOffset off) (Some t) (num_add (getDate (fixedOffset off) (Some t)) 1)
          = TimeClip (t + 1 * msPerDay)"
    using assms(1,2) by (intro setDate_getDate) simp_all
  then show ?thesis
    using assms(3,4)
    by (simp add: TimeClip_def setUTCHours_Some setUTCHours_Invalid Day_next mod_hour_next)
qed










text \<open>A host on UTC, and the calendar fields of the literal time values used below.\<close>

lemma utc_host: "\<bar>0 :: int\<bar> \<le> msPerDay"
  by (simp add: msPerDay_def)

lemmas calendar_eval =
  DateFromTime_def MonthFromTime_def InLeapYear_def DayWithinYear_def YearFromTime_def
  DayFromYear_def DaysInYear_def Day_def HourFromTime_def msPerDay_def msPerHour_def
  monthOfDay_def firstOfMonth_def yearOfDay_def

lemma july_20:
  "getDate (fixedOffset 0) (Some 1595260800000) = Some 20"
  "getHours (fixedOffset 0) (Some 1595260800000) = Some 16"
  "getDate (fixedOffset 0) (Some 1595264400000) = Some 20"
  "getHours (fixedOffset 0) (Some 1595264400000) = Some 17"
  by (simp_all add: getDate_fixed getHours_fixed utc_host calendar_eval)

lemma august_20:
  "getDate (fixedOffset 0) (Some 1597939200000) = Some 20"
  "getHours (fixedOffset 0) (Some 1597939200000) = Some 16"
  by (simp_all add: getDate_fixed getHours_fixed utc_host calendar_eval)

section \<open>Facts about the loop\<close>

lemma withVisibility_fields [simp]:
  "day (withVisibility g v) = day g"
  "season (withVisibility g v) = season g"
  "seriesIndex (withVisibility g v) = seriesIndex g"
  "gameStart (withVisibility g v) = gameStart g"
  "visibleOnSite (withVisibility g v) = v"
  "gameWithVisibilityStatus.more (withVisibility g v) = game.more g"
  by (simp_all add: withVisibility_def)

lemma placeGame_fields [simp]:
  "currGameDate (placeGame tz g st) = currGameDate st"
  "postseasonHasStarted (placeGame tz g st) = postseasonHasStarted st"
  "postseasonRound (placeGame tz g st) = postseasonRound st"
  "previousGameHasStarted (placeGame tz g st) = gameStart g"
  "prevGame (placeGame tz g st) = Some (withVisibility g (previousGameHasStarted st \<or> gameStart g))"
  "gamesByDay (placeGame tz g st) =
     addToBuckets (getDate tz (currGameDate st)) (getHours tz (currGameDate st)) (currGameDate st)
       (withVisibility g (previousGameHasStarted st \<or> gameStart g)) (gamesByDay st)"
  by (simp_all add: placeGame_def Let_def)

lemma advanceClock_frame [simp]:
  "prevGame (advanceClock tz sel g st) = prevGame st"
  "previousGameHasStarted (advanceClock tz sel g st) = previousGameHasStarted st"
  "gamesByDay (advanceClock tz sel g st) = gamesByDay st"
  by (simp_all add: advanceClock_def Let_def)



lemma advanceClock_day_0:
  "day g \<le> 0 \<Longrightarrow> advanceClock tz sel g st = st"
  by (simp add: advanceClock_def Let_def)





lemma scheduleLoop_Nil [simp]:
  "scheduleLoop tz sel start [] = initial_state start"
  by (simp add: scheduleLoop_def)

lemma scheduleLoop_snoc:
  "scheduleLoop tz sel start (pre @ [c]) = loopBody tz sel (scheduleLoop tz sel start pre) c"
  by (simp add: scheduleLoop_def)

lemma loopBody_fields [simp]:
  "currGameDate (loopBody tz sel st c) = currGameDate (advanceClock tz sel (data c) st)"
  "postseasonHasStarted (loopBody tz sel st c) = postseasonHasStarted (advanceClock tz sel (data c) st)"
  "postseasonRound (loopBody tz sel st c) = postseasonRound (advanceClock tz sel (data c) st)"
  "previousGameHasStarted (loopBody tz sel st c) = gameStart (data c)"
  "prevGame (loopBody tz sel st c) =
     Some (withVisibility (data c) (previousGameHasStarted st \<or> gameStart (data c)))"
  by (simp_all add: loopBody_def)






section \<open>Facts about the buckets\<close>

lemma push_keys [simp]: "map fst (push obj k x) = map fst obj"
  by (induction obj) auto

lemma push_games:
  "hasOwnProperty obj k \<Longrightarrow>
     mset (concat (map snd (push obj k x))) = mset (concat (map snd obj)) + {#x#}"
proof (induction obj)
  case Nil
  then show ?case by (simp add: hasOwnProperty_def)
next
  case (Cons e obj)
  obtain k' xs where e: "e = (k', xs)" by (cases e)
  show ?case
  proof (cases "k' = k")
    case True
    with e show ?thesis by simp
  next
    case False
    with Cons.prems e have "hasOwnProperty obj k"
      by (simp add: hasOwnProperty_def)
    with Cons.IH False e show ?thesis by simp
  qed
qed

lemma push_hour:
  "distinct (map fst obj) \<Longrightarrow> hasOwnProperty obj k \<Longrightarrow>
     concat (map snd (filter (\<lambda>e. fst e = h) (push obj k x)))
       = concat (map snd (filter (\<lambda>e. fst e = h) obj)) @ (if h = k then [x] else [])"
proof (induction obj)
  case Nil
  then show ?case by (simp add: hasOwnProperty_def)
next
  case (Cons e obj)
  obtain k' xs where e: "e = (k', xs)" by (cases e)
  show ?case
  proof (cases "k' = k")
    case True
    with Cons.prems e have "filter (\<lambda>e. fst e = k) obj = []"
      by (auto simp add: filter_empty_conv)
    with True e show ?thesis by auto
  next
    case False
    with Cons e show ?thesis by (auto simp add: hasOwnProperty_def)
  qed
qed

lemma addToHour_fields [simp]:
  "dayOfMonth (addToHour b h g) = dayOfMonth b"
  "startingDate (addToHour b h g) = startingDate b"
  by (simp_all add: addToHour_def)

lemma addToHour_keys:
  "distinct (map fst (gamesByHourOfDay b)) \<Longrightarrow>
     distinct (map fst (gamesByHourOfDay (addToHour b h g)))"
  by (simp add: addToHour_def hasOwnProperty_def)

lemma addToHour_bucketGames:
  "mset (bucketGames (addToHour b h g)) = mset (bucketGames b) + {#g#}"
  by (simp add: addToHour_def bucketGames_def push_games)

lemma addToHour_hourGames:
  "distinct (map fst (gamesByHourOfDay b)) \<Longrightarrow>
     hourGames (addToHour b h g) h' = hourGames b h' @ (if h' = h then [g] else [])"
  by (auto simp add: addToHour_def hourGames_def push_hour hasOwnProperty_def filter_empty_conv)

lemma addToBuckets_Nil:
  "addToBuckets d h ts g [] =
     [\<lparr>dayOfMonth = d, startingDate = ts, gamesByHourOfDay = [(h, [g])]\<rparr>]"
  by (simp add: addToBuckets_def)

lemma addToBuckets_Cons:
  "addToBuckets d h ts g (b # bs) =
     (if strictEq (dayOfMonth b) d then addToHour b h g # bs
      else b # addToBuckets d h ts g bs)"
  by (simp add: addToBuckets_def split: option.split)

lemma strictEq_iff: "strictEq a b = (a \<noteq> None \<and> a = b)"
  by (cases a; cases b) (simp_all add: strictEq_def)

lemma addToBuckets_allGames:
  "mset (allGames (addToBuckets d h ts g bs)) = mset (allGames bs) + {#g#}"
  by (induction bs)
     (simp_all add: addToBuckets_Nil addToBuckets_Cons allGames_def addToHour_bucketGames,
      simp add: bucketGames_def)

lemma addToBuckets_days:
  "map dayOfMonth (addToBuckets d h ts g bs) =
     (if \<exists>b\<in>set bs. strictEq (dayOfMonth b) d then map dayOfMonth bs
      else map dayOfMonth bs @ [d])"
  by (induction bs) (simp_all add: addToBuckets_Nil addToBuckets_Cons)

lemma addToBuckets_distinctDays:
  "distinctDays bs \<Longrightarrow> distinctDays (addToBuckets d h ts g bs)"
  by (auto simp add: distinctDays_def addToBuckets_days strictEq_iff)

lemma addToBuckets_distinctHours:
  "distinctHours bs \<Longrightarrow> distinctHours (addToBuckets d h ts g bs)"
  by (induction bs)
     (simp_all add: addToBuckets_Nil addToBuckets_Cons distinctHours_def addToHour_keys)

lemma gamesAt_Cons:
  "gamesAt (b # bs) d h = (if dayOfMonth b = d then hourGames b h else []) @ gamesAt bs d h"
  by (simp add: gamesAt_def)

lemma gamesAt_absent:
  "d \<notin> set (map dayOfMonth bs) \<Longrightarrow> gamesAt bs d h = []"
  by (induction bs) (auto simp add: gamesAt_Cons, simp add: gamesAt_def)

lemma addToBuckets_gamesAt:
  "distinctDays bs \<Longrightarrow> distinctHours bs \<Longrightarrow>
     gamesAt (addToBuckets d h ts g bs) d' h' =
       gamesAt bs d' h' @ (if d' = d \<and> h' = h then [g] else [])"
proof (induction bs)
  case Nil
  then show ?case
    by (simp add: addToBuckets_Nil gamesAt_def hourGames_def)
next
  case (Cons b bs)
  from Cons.prems have tl: "distinctDays bs" "distinctHours bs"
    and hd: "distinct (map fst (gamesByHourOfDay b))"
    by (auto simp add: distinctDays_def distinctHours_def split: if_splits)
  show ?case
  proof (cases "strictEq (dayOfMonth b) d")
    case True
    then have d: "dayOfMonth b = d" "d \<noteq> None" by (auto simp add: strictEq_iff)
    with Cons.prems(1) have "d \<notin> set (map dayOfMonth bs)"
      by (auto simp add: distinctDays_def)
    then have "\<And>x. gamesAt bs d x = []" by (rule gamesAt_absent)
    with True d hd show ?thesis
      by (auto simp add: addToBuckets_Cons gamesAt_Cons addToHour_hourGames)
  next
    case False
    with Cons.IH [OF tl] show ?thesis
      by (simp add: addToBuckets_Cons gamesAt_Cons)
  qed
qed

lemma loopBody_gamesByDay:
  "gamesByDay (loopBody tz sel st c) =
     addToBuckets (getDate tz (currGameDate (loopBody tz sel st c)))
       (getHours tz (currGameDate (loopBody tz sel st c)))
       (currGameDate (loopBody tz sel st c))
       (withVisibility (data c) (previousGameHasStarted st \<or> gameStart (data c)))
       (gamesByDay st)"
  by (simp add: loopBody_def)

lemma trace_Cons:
  "trace tz sel st (c # cs) =
     (currGameDate (loopBody tz sel st c),
      withVisibility (data c) (previousGameHasStarted st \<or> gameStart (data c)))
     # trace tz sel (loopBody tz sel st c) cs"
  by simp

lemma trace_length: "length (trace tz sel st gs) = length gs"
  by (induction gs arbitrary: st) simp_all

lemma trace_stamp:
  "i < length gs \<Longrightarrow>
     fst (trace tz sel st gs ! i) = currGameDate (foldl (loopBody tz sel) st (take (Suc i) gs))"
proof (induction gs arbitrary: st i)
  case Nil
  then show ?case by simp
next
  case (Cons c cs)
  show ?case
  proof (cases i)
    case 0
    then show ?thesis by (simp only: trace_Cons) simp
  next
    case (Suc j)
    with Cons.prems have "j < length cs" by simp
    from Cons.IH [OF this, of "loopBody tz sel st c"] Suc show ?thesis
      by (simp only: trace_Cons) simp
  qed
qed

lemma trace_game:
  "i < length gs \<Longrightarrow>
     snd (trace tz sel st gs ! i) =
       withVisibility (data (gs ! i))
         (gameStart (data (gs ! i))
            \<or> (if i = 0 then previousGameHasStarted st else gameStart (data (gs ! (i - 1)))))"
proof (induction gs arbitrary: st i)
  case Nil
  then show ?case by simp
next
  case (Cons c cs)
  show ?case
  proof (cases i)
    case 0
    then show ?thesis by (simp only: trace_Cons) (simp add: disj_commute)
  next
    case (Suc j)
    with Cons.prems have "j < length cs" by simp
    from Cons.IH [OF this, of "loopBody tz sel st c"] Suc show ?thesis
      by (simp only: trace_Cons) (cases j; simp)
  qed
qed

lemma loop_allGames:
  "mset (allGames (gamesByDay (foldl (loopBody tz sel) st gs))) =
     mset (allGames (gamesByDay st)) + mset (map snd (trace tz sel st gs))"
proof (induction gs arbitrary: st)
  case Nil
  then show ?case by simp
next
  case (Cons c cs)
  show ?case
    by (simp only: foldl_Cons Cons.IH trace_Cons loopBody_gamesByDay addToBuckets_allGames) simp
qed

lemma loop_distinct:
  "distinctDays (gamesByDay st) \<Longrightarrow> distinctHours (gamesByDay st) \<Longrightarrow>
     distinctDays (gamesByDay (foldl (loopBody tz sel) st gs))
     \<and> distinctHours (gamesByDay (foldl (loopBody tz sel) st gs))"
proof (induction gs arbitrary: st)
  case Nil
  then show ?case by simp
next
  case (Cons c cs)
  have "distinctDays (gamesByDay (loopBody tz sel st c))"
    "distinctHours (gamesByDay (loopBody tz sel st c))"
    using Cons.prems
    by (simp_all only: loopBody_gamesByDay addToBuckets_distinctDays addToBuckets_distinctHours)
  from Cons.IH [OF this] show ?case by simp
qed

lemma loop_gamesAt:
  "distinctDays (gamesByDay st) \<Longrightarrow> distinctHours (gamesByDay st) \<Longrightarrow>
     gamesAt (gamesByDay (foldl (loopBody tz sel) st gs)) d h =
       gamesAt (gamesByDay st) d h
       @ map snd (filter (\<lambda>p. getDate tz (fst p) = d \<and> getHours tz (fst p) = h)
                    (trace tz sel st gs))"
proof (induction gs arbitrary: st)
  case Nil
  then show ?case by simp
next
  case (Cons c cs)
  have inv: "distinctDays (gamesByDay (loopBody tz sel st c))"
    "distinctHours (gamesByDay (loopBody tz sel st c))"
    using Cons.prems
    by (simp_all only: loopBody_gamesByDay addToBuckets_distinctDays addToBuckets_distinctHours)
  have step: "gamesAt (gamesByDay (loopBody tz sel st c)) d h =
      gamesAt (gamesByDay st) d h
      @ (if d = getDate tz (currGameDate (loopBody tz sel st c))
            \<and> h = getHours tz (currGameDate (loopBody tz sel st c))
         then [withVisibility (data c) (previousGameHasStarted st \<or> gameStart (data c))] else [])"
    using Cons.prems by (simp only: loopBody_gamesByDay addToBuckets_gamesAt)
  show ?case
    by (simp only: foldl_Cons Cons.IH [OF inv] step trace_Cons) auto
qed

lemma initial_buckets:
  "distinctDays (gamesByDay (initial_state start))"
  "distinctHours (gamesByDay (initial_state start))"
  "allGames (gamesByDay (initial_state start)) = []"
  "gamesAt (gamesByDay (initial_state start)) d h = []"
  by (simp_all add: initial_state_def distinctDays_def distinctHours_def allGames_def gamesAt_def)

lemma distinctDays_nth:
  "distinctDays bs \<Longrightarrow> i < length bs \<Longrightarrow> j < length bs \<Longrightarrow>
     dayOfMonth (bs ! i) = Some d \<Longrightarrow> dayOfMonth (bs ! j) = Some d \<Longrightarrow> i = j"
proof (induction bs arbitrary: i j)
  case Nil
  then show ?case by simp
next
  case (Cons b bs)
  from Cons.prems(1) have tl: "distinctDays bs"
    by (simp add: distinctDays_def split: if_splits)
  have absent: "dayOfMonth (bs ! k) \<noteq> Some d" if b: "dayOfMonth b = Some d" and k: "k < length bs" for k
  proof -
    from Cons.prems(1) b have "Some d \<notin> dayOfMonth ` set bs"
      by (auto simp add: distinctDays_def)
    moreover from k have "bs ! k \<in> set bs" by simp
    ultimately show ?thesis by force
  qed
  show ?case
  proof (cases i)
    case 0
    note i0 = this
    show ?thesis
    proof (cases j)
      case 0
      with i0 show ?thesis by simp
    next
      case (Suc j')
      with i0 Cons.prems absent [of j'] show ?thesis by simp
    qed
  next
    case (Suc i')
    note i = this
    show ?thesis
    proof (cases j)
      case 0
      with i Cons.prems absent [of i'] show ?thesis by simp
    next
      case (Suc j')
      with i Cons.prems Cons.IH [OF tl, of i' j'] show ?thesis by simp
    qed
  qed
qed

lemma withoutVisibility_withVisibility [simp]:
  "withoutVisibility (withVisibility g v) = g"
  by (simp add: withoutVisibility_def)

lemma withVisibility_withoutVisibility:
  "withVisibility (withoutVisibility g) (visibleOnSite g) = g"
  by (simp add: withoutVisibility_def withVisibility_def)

text \<open>An Invalid Date stays invalid: no game moves the clock away from NaN.\<close>

lemma advanceClock_Invalid:
  "currGameDate st = None \<Longrightarrow> currGameDate (advanceClock tz sel g st) = None"
  by (simp add: advanceClock_def Let_def setHours_Invalid setDate_Invalid setUTCHours_Invalid)

lemma loopBody_Invalid:
  "currGameDate st = None \<Longrightarrow> currGameDate (loopBody tz sel st c) = None"
  by (simp add: advanceClock_Invalid)

lemma strictEq_NaN: "\<not> strictEq a None"
  by (cases a) (simp_all add: strictEq_def)

lemma invalid_date_buckets:
  "currGameDate st = None \<Longrightarrow>
     map dayOfMonth (gamesByDay (foldl (loopBody tz sel) st gs))
       = map dayOfMonth (gamesByDay st) @ replicate (length gs) None"
proof (induction gs arbitrary: st)
  case Nil
  then show ?case by simp
next
  case (Cons c cs)
  from Cons.prems have inv: "currGameDate (loopBody tz sel st c) = None"
    by (rule loopBody_Invalid)
  then have "map dayOfMonth (gamesByDay (loopBody tz sel st c)) = map dayOfMonth (gamesByDay st) @ [None]"
    by (simp add: loopBody_gamesByDay addToBuckets_days getDate_def strictEq_NaN)
  with Cons.IH [OF inv] show ?case
    by (simp add: replicate_app_Cons_same)
qed

text \<open>
  With an Invalid Date as the start date (the start string of the selected season is
  missing or does not parse) every game gets a day bucket of its own, its day of month
  NaN: \<^verbatim>\<open>find\<close> compares with \<^verbatim>\<open>===\<close>, and NaN is equal to nothing.
\<close>

lemma invalid_start_date:
  "map dayOfMonth (gamesByDay (scheduleLoop tz sel None gs)) = replicate (length gs) None"
  using invalid_date_buckets [of "initial_state None" tz sel gs]
  by (simp add: scheduleLoop_def initial_state_def)

lemma trace_prev:
  "i < length gs \<Longrightarrow>
     prevGame (foldl (loopBody tz sel) st (take (Suc i) gs)) = Some (snd (trace tz sel st gs ! i))"
proof (induction gs arbitrary: st i)
  case Nil
  then show ?case by simp
next
  case (Cons c cs)
  show ?case
  proof (cases i)
    case 0
    then show ?thesis by (simp only: trace_Cons) simp
  next
    case (Suc j)
    with Cons.prems have "j < length cs" by simp
    from Cons.IH [OF this, of "loopBody tz sel st c"] Suc show ?thesis
      by (simp only: trace_Cons) simp
  qed
qed

lemma trace_games:
  "map snd (trace tz sel st gs) =
     map (\<lambda>i. withVisibility (data (gs ! i))
                (gameStart (data (gs ! i))
                   \<or> (if i = 0 then previousGameHasStarted st else gameStart (data (gs ! (i - 1))))))
       [0..<length gs]"
  by (rule nth_equalityI) (simp_all add: trace_length trace_game)

text \<open>With every input present the component shows the schedule.\<close>

lemma present_inputs_render_schedule:
  assumes "\<not> scheduleIsValidating props" "schedule props = Some sched" "selectedSeason props = Some sel"
    "seasonStartDates props = Some dates" "team props = Some t" "teams props = Some ts"
  shows "TeamSchedule tz parseDate showForbiddenKnowledge props =
           TeamDailySchedule
             (gamesByDay (scheduleLoop tz sel (seasonStartDate parseDate dates sel) sched))
             showForbiddenKnowledge t ts"
  using assms by (simp add: TeamSchedule_def seasonScheduleByDate_def)

text \<open>
  While the running timestamp is a valid date: every bucket has a day-of-month number,
  no two buckets have the same one, and a game either opens a new bucket at the end of
  the list or is added to the one bucket of its day.
\<close>

lemma loop_Invalid:
  "currGameDate st = None \<Longrightarrow> currGameDate (foldl (loopBody z sel) st gs) = None"
  by (induction gs arbitrary: st) (simp_all add: loopBody_Invalid del: loopBody_fields)

lemma valid_prefix:
  assumes "currGameDate (scheduleLoop z sel start gs) \<noteq> None"
  shows "currGameDate (scheduleLoop z sel start (take j gs)) \<noteq> None"
proof
  assume n: "currGameDate (scheduleLoop z sel start (take j gs)) = None"
  have "scheduleLoop z sel start gs
          = foldl (loopBody z sel) (scheduleLoop z sel start (take j gs)) (drop j gs)"
    unfolding scheduleLoop_def foldl_append [symmetric] by simp
  with loop_Invalid [OF n] assms show False by simp
qed

lemma getDate_valid: "ts \<noteq> None \<Longrightarrow> getDate z ts \<noteq> None"
  by (cases ts) (simp_all add: getDate_def)

lemma addToBuckets_new:
  "\<forall>b\<in>set bs. dayOfMonth b \<noteq> d \<Longrightarrow>
     addToBuckets d h ts g bs = bs @ [\<lparr>dayOfMonth = d, startingDate = ts, gamesByHourOfDay = [(h, [g])]\<rparr>]"
  by (induction bs) (simp_all add: addToBuckets_Nil addToBuckets_Cons strictEq_iff)

lemma addToBuckets_existing:
  "d \<noteq> None \<Longrightarrow> distinct (map dayOfMonth bs) \<Longrightarrow> k < length bs \<Longrightarrow> dayOfMonth (bs ! k) = d \<Longrightarrow>
     addToBuckets d h ts g bs = bs[k := addToHour (bs ! k) h g]"
proof (induction bs arbitrary: k)
  case Nil
  then show ?case by simp
next
  case (Cons b bs)
  show ?case
  proof (cases k)
    case 0
    with Cons.prems show ?thesis
      by (simp add: addToBuckets_Cons strictEq_iff)
  next
    case (Suc k')
    with Cons.prems have "bs ! k' \<in> set bs" by simp
    moreover from Cons.prems have "\<forall>y\<in>set bs. dayOfMonth b \<noteq> dayOfMonth y"
      by (auto simp add: image_iff)
    ultimately have "dayOfMonth b \<noteq> dayOfMonth (bs ! k')" by blast
    with Cons.prems Suc have "dayOfMonth b \<noteq> d" by simp
    with Cons.prems Suc Cons.IH [of k'] show ?thesis
      by (simp add: addToBuckets_Cons strictEq_iff)
  qed
qed

lemma map_of_push:
  "map_of (push obj k x) =
     (case map_of obj k of None \<Rightarrow> map_of obj | Some xs \<Rightarrow> (map_of obj)(k \<mapsto> xs @ [x]))"
  by (induction obj k x rule: push.induct) (auto split: option.splits)

lemma map_of_addToHour:
  "map_of (gamesByHourOfDay (addToHour b h g)) =
     (map_of (gamesByHourOfDay b))
       (h \<mapsto> (case map_of (gamesByHourOfDay b) h of None \<Rightarrow> [g] | Some xs \<Rightarrow> xs @ [g]))"
proof (cases "map_of (gamesByHourOfDay b) h")
  case None
  then have "\<not> hasOwnProperty (gamesByHourOfDay b) h"
    by (simp add: hasOwnProperty_def map_of_eq_None_iff)
  with None show ?thesis
    by (auto simp add: addToHour_def map_add_def split: option.splits)
next
  case (Some xs)
  then have "hasOwnProperty (gamesByHourOfDay b) h"
    using map_of_eq_None_iff [of "gamesByHourOfDay b" h] by (simp add: hasOwnProperty_def)
  with Some show ?thesis
    by (simp add: addToHour_def map_of_push)
qed

lemma previousGameHasStarted_scheduleLoop:
  "previousGameHasStarted (scheduleLoop z sel start pre) = (pre \<noteq> [] \<and> gameStart (data (last pre)))"
  by (cases pre rule: rev_cases) (simp_all add: scheduleLoop_snoc initial_state_def)

lemma step_buckets:
  assumes "i < length gs"
  shows "bucketsBefore z sel start gs (Suc i) =
           addToBuckets (getDate z (stampOf z sel start gs i)) (getHours z (stampOf z sel start gs i))
             (stampOf z sel start gs i) (storedCopy gs i) (bucketsBefore z sel start gs i)"
proof -
  from assms have t: "take (Suc i) gs = take i gs @ [gs ! i]"
    by (simp add: take_Suc_conv_app_nth)
  have p: "previousGameHasStarted (scheduleLoop z sel start (take i gs))
             = (0 < i \<and> gameStart (data (gs ! (i - 1))))"
  proof (cases i)
    case 0
    then show ?thesis by (simp add: initial_state_def)
  next
    case (Suc n)
    with assms have "take i gs \<noteq> []" "last (take i gs) = gs ! n"
      by (auto simp add: take_Suc_conv_app_nth)
    with Suc show ?thesis by (simp add: previousGameHasStarted_scheduleLoop)
  qed
  have "gamesByDay (loopBody z sel (scheduleLoop z sel start (take i gs)) (gs ! i)) =
     addToBuckets (getDate z (currGameDate (loopBody z sel (scheduleLoop z sel start (take i gs)) (gs ! i))))
       (getHours z (currGameDate (loopBody z sel (scheduleLoop z sel start (take i gs)) (gs ! i))))
       (currGameDate (loopBody z sel (scheduleLoop z sel start (take i gs)) (gs ! i)))
       (withVisibility (data (gs ! i))
          (previousGameHasStarted (scheduleLoop z sel start (take i gs)) \<or> gameStart (data (gs ! i))))
       (gamesByDay (scheduleLoop z sel start (take i gs)))"
    by (rule loopBody_gamesByDay)
  moreover have "(previousGameHasStarted (scheduleLoop z sel start (take i gs)) \<or> gameStart (data (gs ! i)))
      = (gameStart (data (gs ! i)) \<or> (0 < i \<and> gameStart (data (gs ! (i - 1)))))"
    unfolding p by blast
  ultimately show ?thesis
    unfolding t scheduleLoop_snoc by simp
qed

lemma valid_days:
  assumes "currGameDate (scheduleLoop z sel start gs) \<noteq> None"
  shows "\<forall>b\<in>set (gamesByDay (scheduleLoop z sel start gs)). dayOfMonth b \<noteq> None"
  using assms
proof (induction gs rule: rev_induct)
  case Nil
  then show ?case by (simp add: initial_state_def)
next
  case (snoc c gs)
  let ?S = "scheduleLoop z sel start gs"
  have "currGameDate ?S \<noteq> None"
  proof
    assume "currGameDate ?S = None"
    then have "currGameDate (loopBody z sel ?S c) = None"
      by (rule loopBody_Invalid)
    with snoc.prems show False
      unfolding scheduleLoop_snoc by simp
  qed
  with snoc.IH have ih: "\<forall>b\<in>set (gamesByDay ?S). dayOfMonth b \<noteq> None" by simp
  from snoc.prems have d: "getDate z (currGameDate (loopBody z sel ?S c)) \<noteq> None"
    unfolding scheduleLoop_snoc by (rule getDate_valid)
  have "set (map dayOfMonth (gamesByDay (loopBody z sel ?S c)))
          \<subseteq> set (map dayOfMonth (gamesByDay ?S)) \<union> {getDate z (currGameDate (loopBody z sel ?S c))}"
    unfolding loopBody_gamesByDay addToBuckets_days by auto
  with ih d show ?case
    unfolding scheduleLoop_snoc by (auto simp del: loopBody_fields)
qed

lemma valid_distinct_days:
  assumes "currGameDate (scheduleLoop z sel start gs) \<noteq> None"
  shows "distinct (map dayOfMonth (gamesByDay (scheduleLoop z sel start gs)))"
proof -
  let ?R = "gamesByDay (scheduleLoop z sel start gs)"
  have "distinctDays ?R"
    by (simp add: scheduleLoop_def loop_distinct initial_buckets)
  moreover have "filter (\<lambda>d. d \<noteq> None) (map dayOfMonth ?R) = map dayOfMonth ?R"
    using valid_days [OF assms] by (intro filter_True) auto
  ultimately show ?thesis by (simp add: distinctDays_def)
qed

lemma filter_key_single:
  "distinct (map f xs) \<Longrightarrow> x \<in> set xs \<Longrightarrow> filter (\<lambda>y. f y = f x) xs = [x]"
proof (induction xs)
  case Nil
  then show ?case by simp
next
  case (Cons a xs)
  show ?case
  proof (cases "a = x")
    case True
    from Cons.prems have "\<forall>y\<in>set xs. f a \<noteq> f y" by (auto simp add: image_iff)
    then have "\<forall>y\<in>set xs. f y \<noteq> f a" by (simp add: eq_commute)
    then have "filter (\<lambda>y. f y = f a) xs = []" by (simp add: filter_empty_conv)
    with True show ?thesis by simp
  next
    case False
    with Cons.prems have x: "x \<in> set xs" by simp
    moreover from Cons.prems have "\<forall>y\<in>set xs. f a \<noteq> f y" by (auto simp add: image_iff)
    ultimately have "f a \<noteq> f x" by blast
    with Cons.prems Cons.IH x show ?thesis by simp
  qed
qed

lemma trace_indexed:
  "trace z sel (initial_state start) gs =
     map (\<lambda>j. (stampOf z sel start gs j, storedCopy gs j)) [0..<length gs]"
proof (rule nth_equalityI)
  show "length (trace z sel (initial_state start) gs)
          = length (map (\<lambda>j. (stampOf z sel start gs j, storedCopy gs j)) [0..<length gs])"
    by (simp add: trace_length)
next
  fix i
  assume "i < length (trace z sel (initial_state start) gs)"
  then have i: "i < length gs" by (simp add: trace_length)
  have "fst (trace z sel (initial_state start) gs ! i) = stampOf z sel start gs i"
    using i by (simp add: trace_stamp scheduleLoop_def)
  moreover have "snd (trace z sel (initial_state start) gs ! i) = storedCopy gs i"
    using i by (cases i) (simp_all add: trace_game initial_state_def)
  ultimately show "trace z sel (initial_state start) gs ! i
      = map (\<lambda>j. (stampOf z sel start gs j, storedCopy gs j)) [0..<length gs] ! i"
    using i by (simp add: prod_eq_iff)
qed

lemma hour_bucket_content:
  assumes "currGameDate (scheduleLoop z sel start gs) \<noteq> None"
    and "b \<in> set (gamesByDay (scheduleLoop z sel start gs))"
    and "(h, xs) \<in> set (gamesByHourOfDay b)"
  shows "xs = map (storedCopy gs)
                (filter (\<lambda>j. getDate z (stampOf z sel start gs j) = dayOfMonth b
                            \<and> getHours z (stampOf z sel start gs j) = h) [0..<length gs])"
proof -
  let ?R = "gamesByDay (scheduleLoop z sel start gs)"
  have dh: "distinctHours ?R"
    by (simp add: scheduleLoop_def loop_distinct initial_buckets)
  with assms(2) have keys: "distinct (map fst (gamesByHourOfDay b))"
    by (simp add: distinctHours_def)
  have "filter (\<lambda>e. fst e = fst (h, xs)) (gamesByHourOfDay b) = [(h, xs)]"
    using keys assms(3) by (rule filter_key_single)
  then have hg: "hourGames b h = xs"
    by (simp add: hourGames_def)
  have "filter (\<lambda>b'. dayOfMonth b' = dayOfMonth b) ?R = [b]"
    using valid_distinct_days [OF assms(1)] assms(2) by (rule filter_key_single)
  then have "gamesAt ?R (dayOfMonth b) h = xs"
    using hg by (simp add: gamesAt_def)
  moreover have "gamesAt ?R (dayOfMonth b) h
      = map snd (filter (\<lambda>p. getDate z (fst p) = dayOfMonth b \<and> getHours z (fst p) = h)
                   (trace z sel (initial_state start) gs))"
    by (simp add: scheduleLoop_def loop_gamesAt initial_buckets)
  ultimately show ?thesis
    unfolding trace_indexed by (simp add: filter_map comp_def)
qed

text \<open>
  Where a bucket comes from: its starting date is the timestamp of the first game whose
  timestamp has its day of month, and every earlier game has a bucket for its day.
\<close>

lemma addToBuckets_origin:
  "map (\<lambda>b. (dayOfMonth b, startingDate b)) (addToBuckets d h ts g bs) =
     (if \<exists>b\<in>set bs. strictEq (dayOfMonth b) d then map (\<lambda>b. (dayOfMonth b, startingDate b)) bs
      else map (\<lambda>b. (dayOfMonth b, startingDate b)) bs @ [(d, ts)])"
  by (induction bs) (simp_all add: addToBuckets_Nil addToBuckets_Cons)

lemma bucket_origin:
  assumes "currGameDate (scheduleLoop z sel start gs) \<noteq> None" and "n \<le> length gs"
  shows "(\<forall>p \<in> set (map (\<lambda>b. (dayOfMonth b, startingDate b)) (bucketsBefore z sel start gs n)).
            \<exists>j0 < n. snd p = stampOf z sel start gs j0 \<and> fst p = getDate z (stampOf z sel start gs j0)
              \<and> (\<forall>j' < j0. getDate z (stampOf z sel start gs j') \<noteq> fst p))
       \<and> (\<forall>j' < n. getDate z (stampOf z sel start gs j')
             \<in> fst ` set (map (\<lambda>b. (dayOfMonth b, startingDate b)) (bucketsBefore z sel start gs n)))"
  using assms(2)
proof (induction n)
  case 0
  then show ?case by (simp add: initial_state_def)
next
  case (Suc n)
  let ?ps = "map (\<lambda>b. (dayOfMonth b, startingDate b)) (bucketsBefore z sel start gs n)"
  let ?ps' = "map (\<lambda>b. (dayOfMonth b, startingDate b)) (bucketsBefore z sel start gs (Suc n))"
  let ?d = "getDate z (stampOf z sel start gs n)"
  define Q where "Q = (\<lambda>m p. \<exists>j0 < m. snd p = stampOf z sel start gs j0
              \<and> fst p = getDate z (stampOf z sel start gs j0)
              \<and> (\<forall>j' < j0. getDate z (stampOf z sel start gs j') \<noteq> fst p))"
  define D where "D = (\<lambda>j. getDate z (stampOf z sel start gs j))"
  from Suc.prems have n: "n < length gs" by simp
  then have "n \<le> length gs" by simp
  note ih = Suc.IH [OF this]
  from ih have ih1: "\<forall>p \<in> set ?ps. Q n p"
    unfolding Q_def by (rule conjunct1)
  from ih have ih2: "\<forall>j' < n. D j' \<in> fst ` set ?ps"
    unfolding D_def by (rule conjunct2)
  have v: "?d \<noteq> None"
    using valid_prefix [OF assms(1), of "Suc n"] by (rule getDate_valid)
  then have se: "strictEq (dayOfMonth b) ?d = (dayOfMonth b = ?d)"
    for b :: "('a gameWithVisibilityStatus_scheme) dailySchedule"
    by (auto simp add: strictEq_iff)
  have weak: "Q (Suc n) p" if "Q n p" for p
  proof -
    from that obtain j0 where "j0 < n" and r: "snd p = stampOf z sel start gs j0
        \<and> fst p = getDate z (stampOf z sel start gs j0)
        \<and> (\<forall>j' < j0. getDate z (stampOf z sel start gs j') \<noteq> fst p)"
      unfolding Q_def by blast
    then have "j0 < Suc n" by simp
    with r show ?thesis unfolding Q_def by blast
  qed
  have c: "(\<exists>b\<in>set (bucketsBefore z sel start gs n). dayOfMonth b = ?d) = (?d \<in> fst ` set ?ps)"
    by (force simp add: image_iff)
  have ps': "?ps' = (if ?d \<in> fst ` set ?ps then ?ps else ?ps @ [(?d, stampOf z sel start gs n)])"
    unfolding step_buckets [OF n] addToBuckets_origin se c ..
  have new: "Q (Suc n) (?d, stampOf z sel start gs n)" if "?d \<notin> fst ` set ?ps"
  proof -
    have "\<forall>j' < n. getDate z (stampOf z sel start gs j') \<noteq> ?d"
    proof (intro allI impI)
      fix j'
      assume "j' < n"
      with ih2 have "D j' \<in> fst ` set ?ps" by blast
      with that show "getDate z (stampOf z sel start gs j') \<noteq> ?d"
        unfolding D_def by metis
    qed
    then have "n < Suc n \<and> snd (?d, stampOf z sel start gs n) = stampOf z sel start gs n
        \<and> fst (?d, stampOf z sel start gs n) = getDate z (stampOf z sel start gs n)
        \<and> (\<forall>j' < n. getDate z (stampOf z sel start gs j') \<noteq> fst (?d, stampOf z sel start gs n))"
      by simp
    then show ?thesis unfolding Q_def by (rule exI [where x = n])
  qed
  have g1: "\<forall>p \<in> set ?ps'. Q (Suc n) p"
  proof (cases "?d \<in> fst ` set ?ps")
    case True
    with ps' have "?ps' = ?ps" by simp
    with ih1 weak show ?thesis by metis
  next
    case False
    with ps' have e: "set ?ps' = insert (?d, stampOf z sel start gs n) (set ?ps)" by simp
    from new [OF False] ih1 weak show ?thesis unfolding e by blast
  qed
  have g2: "\<forall>j' < Suc n. D j' \<in> fst ` set ?ps'"
  proof (intro allI impI)
    fix j'
    assume "j' < Suc n"
    then consider "j' < n" | "j' = n" by linarith
    then show "D j' \<in> fst ` set ?ps'"
    proof cases
      case 1
      with ih2 have "D j' \<in> fst ` set ?ps" by blast
      moreover from ps' have "set ?ps \<subseteq> set ?ps'" by (simp split: if_splits) blast
      ultimately show ?thesis by blast
    next
      case 2
      have "?d \<in> fst ` set ?ps'"
      proof (cases "?d \<in> fst ` set ?ps")
        case True
        with ps' show ?thesis by simp
      next
        case False
        with ps' have "set ?ps' = insert (?d, stampOf z sel start gs n) (set ?ps)" by simp
        then show ?thesis by simp
      qed
      with 2 show ?thesis unfolding D_def by simp
    qed
  qed
  from g1 g2 show ?case
    unfolding Q_def D_def by (rule conjI)
qed

lemma game_in_hour_bucket:
  assumes "currGameDate (scheduleLoop z sel start gs) \<noteq> None"
    and "j < length gs"
    and "b \<in> set (gamesByDay (scheduleLoop z sel start gs))"
    and "dayOfMonth b = getDate z (stampOf z sel start gs j)"
  shows "\<exists>xs. (getHours z (stampOf z sel start gs j), xs) \<in> set (gamesByHourOfDay b)
              \<and> storedCopy gs j \<in> set xs"
proof -
  let ?R = "gamesByDay (scheduleLoop z sel start gs)"
  let ?d = "getDate z (stampOf z sel start gs j)"
  let ?h = "getHours z (stampOf z sel start gs j)"
  have "filter (\<lambda>b'. dayOfMonth b' = dayOfMonth b) ?R = [b]"
    using valid_distinct_days [OF assms(1)] assms(3) by (rule filter_key_single)
  then have "gamesAt ?R ?d ?h = hourGames b ?h"
    unfolding assms(4) by (simp add: gamesAt_def)
  moreover have "gamesAt ?R ?d ?h
      = map snd (filter (\<lambda>p. getDate z (fst p) = ?d \<and> getHours z (fst p) = ?h)
                   (trace z sel (initial_state start) gs))"
    by (simp add: scheduleLoop_def loop_gamesAt initial_buckets)
  ultimately have "hourGames b ?h
      = map (storedCopy gs)
          (filter (\<lambda>i. getDate z (stampOf z sel start gs i) = ?d \<and> getHours z (stampOf z sel start gs i) = ?h)
             [0..<length gs])"
    unfolding trace_indexed by (simp add: filter_map comp_def)
  moreover have "j \<in> set (filter (\<lambda>i. getDate z (stampOf z sel start gs i) = ?d
                                  \<and> getHours z (stampOf z sel start gs i) = ?h) [0..<length gs])"
    using assms(2) by simp
  ultimately have "storedCopy gs j \<in> set (hourGames b ?h)"
    by (metis (no_types, lifting) image_eqI set_map)
  then obtain e where "e \<in> set (gamesByHourOfDay b)" "fst e = ?h" "storedCopy gs j \<in> set (snd e)"
    by (auto simp add: hourGames_def)
  then have "(?h, snd e) \<in> set (gamesByHourOfDay b) \<and> storedCopy gs j \<in> set (snd e)"
    by (metis prod.collapse)
  then show ?thesis by blast
qed

section \<open>The claims\<close>




text \<open>
  C2, as amended. The clock is advanced for a game in a way that depends on its season
  only through \<open>season < 8\<close>, \<open>season \<ge> 11\<close> and \<open>season = 12\<close> (the postseason of
  season 12 resumes an hour early): two games that agree on these, on \<open>day\<close> and on
  \<open>seriesIndex\<close> leave the same loop state behind.
\<close>

theorem advance_by_season_range:
  assumes "day g1 = day g2" and "seriesIndex g1 = seriesIndex g2"
    and "(season g1 < 8) = (season g2 < 8)"
    and "(11 \<le> season g1) = (11 \<le> season g2)"
    and "(season g1 = 12) = (season g2 = 12)"
  shows "advanceClock tz sel g1 st = advanceClock tz sel g2 st"
proof -
  have a: "(8 \<le> season g1) = (8 \<le> season g2)" "(season g1 < 11) = (season g2 < 11)"
    using assms(3,4) by auto
  have n: "isNewGameDay (prevGame st) g1 = isNewGameDay (prevGame st) g2"
    using assms(1) by (simp add: isNewGameDay_def split: option.split)
  show ?thesis
    unfolding advanceClock_def n assms(1,2,3,4,5) a ..
qed

theorem advance_by_season_range_witness:
  "advanceClock (fixedOffset 0) 13
     \<lparr>day = 103, season = 13, seriesIndex = 1, gameStart = False\<rparr>
     \<lparr>currGameDate = Some 1595282400000,
      prevGame = Some \<lparr>day = 102, season = 13, seriesIndex = 2, gameStart = True, visibleOnSite = True\<rparr>,
      previousGameHasStarted = True, postseasonHasStarted = True, postseasonRound = 2,
      gamesByDay = []\<rparr>
   = advanceClock (fixedOffset 0) 13
     \<lparr>day = 103, season = 20, seriesIndex = 1, gameStart = False\<rparr>
     \<lparr>currGameDate = Some 1595282400000,
      prevGame = Some \<lparr>day = 102, season = 13, seriesIndex = 2, gameStart = True, visibleOnSite = True\<rparr>,
      previousGameHasStarted = True, postseasonHasStarted = True, postseasonRound = 2,
      gamesByDay = []\<rparr>"
  by (rule advance_by_season_range) simp_all

text \<open>
  C2 as stated fails: seasons 11 and 12 are both in the range \<open>season \<ge> 11\<close>, yet after
  the same two postseason games the third one, the start of round three, puts the clock
  at 15:00 UTC of the next day in season 11 and at 14:00 UTC in season 12.
\<close>

theorem season_range_counterexample:
  "currGameDate (scheduleLoop (fixedOffset 0) 11 (Some 1595260800000)
      [\<lparr>data = \<lparr>day = 99, season = 11, seriesIndex = 1, gameStart = False\<rparr>\<rparr>,
       \<lparr>data = \<lparr>day = 100, season = 11, seriesIndex = 1, gameStart = False\<rparr>\<rparr>,
       \<lparr>data = \<lparr>day = 101, season = 11, seriesIndex = 1, gameStart = False\<rparr>\<rparr>])
     = Some 1595343600000
   \<and> currGameDate (scheduleLoop (fixedOffset 0) 11 (Some 1595260800000)
      [\<lparr>data = \<lparr>day = 99, season = 11, seriesIndex = 1, gameStart = False\<rparr>\<rparr>,
       \<lparr>data = \<lparr>day = 100, season = 11, seriesIndex = 1, gameStart = False\<rparr>\<rparr>,
       \<lparr>data = \<lparr>day = 101, season = 12, seriesIndex = 1, gameStart = False\<rparr>\<rparr>])
     = Some 1595340000000"
  by (simp add: scheduleLoop_def initial_state_def advanceClock_def isNewGameDay_def Let_def
      setHours_getHours next_day_at_hour utc_host TimeClip_def Day_def msPerHour_def msPerDay_def)




text \<open>
  C4, as amended. While the running timestamp is a valid date (it is one after the last
  game, and then it is one after every game), game \<open>i\<close> is stored as follows. If no bucket
  has the day of month of its timestamp, a new bucket is appended: that day of month,
  the timestamp as starting date, and the game alone under the hour of the timestamp. If
  bucket \<open>k\<close> has that day of month, the list keeps its length, every other bucket stays
  as it is, bucket \<open>k\<close> keeps its day of month and its starting date, and under the hour
  of the timestamp it now has the games it had there, followed by the game; its other
  hours stay as they are. In the end no two buckets have the same day of month, no
  bucket has two properties for one hour, the array under hour \<open>h\<close> of the bucket of day
  \<open>d\<close> holds the games whose timestamp has day of month \<open>d\<close> and hour \<open>h\<close>, in input
  order, and the stored games are the copies of the input games, once each.
\<close>

theorem games_bucketed_by_day_and_hour:
  assumes "currGameDate (scheduleLoop z sel start gs) \<noteq> None"
  shows "(\<forall>i < length gs.
            ((\<forall>b \<in> set (bucketsBefore z sel start gs i). dayOfMonth b \<noteq> getDate z (stampOf z sel start gs i)) \<longrightarrow>
               bucketsBefore z sel start gs (Suc i) =
                 bucketsBefore z sel start gs i @
                   [\<lparr>dayOfMonth = getDate z (stampOf z sel start gs i),
                     startingDate = stampOf z sel start gs i,
                     gamesByHourOfDay = [(getHours z (stampOf z sel start gs i), [storedCopy gs i])]\<rparr>])
          \<and> (\<forall>k < length (bucketsBefore z sel start gs i).
               dayOfMonth (bucketsBefore z sel start gs i ! k) = getDate z (stampOf z sel start gs i) \<longrightarrow>
                 length (bucketsBefore z sel start gs (Suc i)) = length (bucketsBefore z sel start gs i)
               \<and> (\<forall>j < length (bucketsBefore z sel start gs i). j \<noteq> k \<longrightarrow>
                      bucketsBefore z sel start gs (Suc i) ! j = bucketsBefore z sel start gs i ! j)
               \<and> dayOfMonth (bucketsBefore z sel start gs (Suc i) ! k)
                   = dayOfMonth (bucketsBefore z sel start gs i ! k)
               \<and> startingDate (bucketsBefore z sel start gs (Suc i) ! k)
                   = startingDate (bucketsBefore z sel start gs i ! k)
               \<and> map_of (gamesByHourOfDay (bucketsBefore z sel start gs (Suc i) ! k)) =
                   (map_of (gamesByHourOfDay (bucketsBefore z sel start gs i ! k)))
                     (getHours z (stampOf z sel start gs i) \<mapsto>
                        (case map_of (gamesByHourOfDay (bucketsBefore z sel start gs i ! k))
                                (getHours z (stampOf z sel start gs i)) of
                           None \<Rightarrow> [storedCopy gs i]
                         | Some xs \<Rightarrow> xs @ [storedCopy gs i]))))
       \<and> distinct (map dayOfMonth (gamesByDay (scheduleLoop z sel start gs)))
       \<and> (\<forall>b \<in> set (gamesByDay (scheduleLoop z sel start gs)).
            distinct (map fst (gamesByHourOfDay b))
            \<and> (\<forall>e \<in> set (gamesByHourOfDay b).
                 snd e = map (storedCopy gs)
                           (filter (\<lambda>j. getDate z (stampOf z sel start gs j) = dayOfMonth b
                                       \<and> getHours z (stampOf z sel start gs j) = fst e)
                              [0..<length gs])))
       \<and> mset (allGames (gamesByDay (scheduleLoop z sel start gs))) = mset (map (storedCopy gs) [0..<length gs])"
proof (intro conjI allI impI ballI)
  fix i
  assume i: "i < length gs"
    and new: "\<forall>b \<in> set (bucketsBefore z sel start gs i). dayOfMonth b \<noteq> getDate z (stampOf z sel start gs i)"
  show "bucketsBefore z sel start gs (Suc i) =
          bucketsBefore z sel start gs i @
            [\<lparr>dayOfMonth = getDate z (stampOf z sel start gs i),
              startingDate = stampOf z sel start gs i,
              gamesByHourOfDay = [(getHours z (stampOf z sel start gs i), [storedCopy gs i])]\<rparr>]"
    unfolding step_buckets [OF i] using new by (rule addToBuckets_new)
next
  fix i k
  assume i: "i < length gs" and k: "k < length (bucketsBefore z sel start gs i)"
    and d: "dayOfMonth (bucketsBefore z sel start gs i ! k) = getDate z (stampOf z sel start gs i)"
  let ?B = "bucketsBefore z sel start gs i"
  have v: "getDate z (stampOf z sel start gs i) \<noteq> None"
    using valid_prefix [OF assms, of "Suc i"] by (rule getDate_valid)
  have dd: "distinct (map dayOfMonth ?B)"
    using valid_prefix [OF assms, of i] by (rule valid_distinct_days)
  have e: "bucketsBefore z sel start gs (Suc i) =
      ?B[k := addToHour (?B ! k) (getHours z (stampOf z sel start gs i)) (storedCopy gs i)]"
    unfolding step_buckets [OF i] using v dd k d by (rule addToBuckets_existing)
  show "length (bucketsBefore z sel start gs (Suc i)) = length ?B"
    unfolding e by simp
  show "dayOfMonth (bucketsBefore z sel start gs (Suc i) ! k) = dayOfMonth (?B ! k)"
    unfolding e using k by simp
  show "startingDate (bucketsBefore z sel start gs (Suc i) ! k) = startingDate (?B ! k)"
    unfolding e using k by simp
  show "map_of (gamesByHourOfDay (bucketsBefore z sel start gs (Suc i) ! k)) =
          (map_of (gamesByHourOfDay (?B ! k)))
            (getHours z (stampOf z sel start gs i) \<mapsto>
               (case map_of (gamesByHourOfDay (?B ! k)) (getHours z (stampOf z sel start gs i)) of
                  None \<Rightarrow> [storedCopy gs i]
                | Some xs \<Rightarrow> xs @ [storedCopy gs i]))"
    unfolding e using k by (simp only: nth_list_update_eq map_of_addToHour)
  fix j
  assume "j < length ?B" "j \<noteq> k"
  then show "bucketsBefore z sel start gs (Suc i) ! j = ?B ! j"
    unfolding e by simp
next
  show "distinct (map dayOfMonth (gamesByDay (scheduleLoop z sel start gs)))"
    using assms by (rule valid_distinct_days)
next
  fix b
  assume b: "b \<in> set (gamesByDay (scheduleLoop z sel start gs))"
  have "distinctHours (gamesByDay (scheduleLoop z sel start gs))"
    by (simp add: scheduleLoop_def loop_distinct initial_buckets)
  with b show "distinct (map fst (gamesByHourOfDay b))"
    by (simp add: distinctHours_def)
  fix e
  assume "e \<in> set (gamesByHourOfDay b)"
  then have "(fst e, snd e) \<in> set (gamesByHourOfDay b)" by simp
  with assms b show "snd e = map (storedCopy gs)
                           (filter (\<lambda>j. getDate z (stampOf z sel start gs j) = dayOfMonth b
                                       \<and> getHours z (stampOf z sel start gs j) = fst e)
                              [0..<length gs])"
    by (rule hour_bucket_content)
next
  show "mset (allGames (gamesByDay (scheduleLoop z sel start gs))) = mset (map (storedCopy gs) [0..<length gs])"
    by (simp add: scheduleLoop_def loop_allGames initial_buckets trace_indexed comp_def)
qed

theorem games_bucketed_by_day_and_hour_witness:
  "gamesByDay (scheduleLoop (fixedOffset 0) 11 (Some 1595260800000)
      [\<lparr>data = \<lparr>day = 0, season = 11, seriesIndex = 0, gameStart = True\<rparr>\<rparr>])
     = [\<lparr>dayOfMonth = Some 20, startingDate = Some 1595260800000,
         gamesByHourOfDay =
           [(Some 16, [\<lparr>day = 0, season = 11, seriesIndex = 0, gameStart = True, visibleOnSite = True\<rparr>])]\<rparr>]
   \<and> length (gamesByDay (scheduleLoop (fixedOffset 0) 11 (Some 1595260800000)
      [\<lparr>data = \<lparr>day = 0, season = 11, seriesIndex = 0, gameStart = True\<rparr>\<rparr>,
       \<lparr>data = \<lparr>day = 0, season = 11, seriesIndex = 1, gameStart = False\<rparr>\<rparr>,
       \<lparr>data = \<lparr>day = 1, season = 11, seriesIndex = 2, gameStart = False\<rparr>\<rparr>])) = 1
   \<and> dayOfMonth (gamesByDay (scheduleLoop (fixedOffset 0) 11 (Some 1595260800000)
      [\<lparr>data = \<lparr>day = 0, season = 11, seriesIndex = 0, gameStart = True\<rparr>\<rparr>,
       \<lparr>data = \<lparr>day = 0, season = 11, seriesIndex = 1, gameStart = False\<rparr>\<rparr>,
       \<lparr>data = \<lparr>day = 1, season = 11, seriesIndex = 2, gameStart = False\<rparr>\<rparr>]) ! 0) = Some 20
   \<and> startingDate (gamesByDay (scheduleLoop (fixedOffset 0) 11 (Some 1595260800000)
      [\<lparr>data = \<lparr>day = 0, season = 11, seriesIndex = 0, gameStart = True\<rparr>\<rparr>,
       \<lparr>data = \<lparr>day = 0, season = 11, seriesIndex = 1, gameStart = False\<rparr>\<rparr>,
       \<lparr>data = \<lparr>day = 1, season = 11, seriesIndex = 2, gameStart = False\<rparr>\<rparr>]) ! 0) = Some 1595260800000
   \<and> map_of (gamesByHourOfDay (gamesByDay (scheduleLoop (fixedOffset 0) 11 (Some 1595260800000)
      [\<lparr>data = \<lparr>day = 0, season = 11, seriesIndex = 0, gameStart = True\<rparr>\<rparr>,
       \<lparr>data = \<lparr>day = 0, season = 11, seriesIndex = 1, gameStart = False\<rparr>\<rparr>,
       \<lparr>data = \<lparr>day = 1, season = 11, seriesIndex = 2, gameStart = False\<rparr>\<rparr>]) ! 0)) (Some 16)
     = Some [\<lparr>day = 0, season = 11, seriesIndex = 0, gameStart = True, visibleOnSite = True\<rparr>,
             \<lparr>day = 0, season = 11, seriesIndex = 1, gameStart = False, visibleOnSite = True\<rparr>]
   \<and> map_of (gamesByHourOfDay (gamesByDay (scheduleLoop (fixedOffset 0) 11 (Some 1595260800000)
      [\<lparr>data = \<lparr>day = 0, season = 11, seriesIndex = 0, gameStart = True\<rparr>\<rparr>,
       \<lparr>data = \<lparr>day = 0, season = 11, seriesIndex = 1, gameStart = False\<rparr>\<rparr>,
       \<lparr>data = \<lparr>day = 1, season = 11, seriesIndex = 2, gameStart = False\<rparr>\<rparr>]) ! 0)) (Some 17)
     = Some [\<lparr>day = 1, season = 11, seriesIndex = 2, gameStart = False, visibleOnSite = False\<rparr>]"
proof -
  let ?z = "fixedOffset 0"
  let ?s = "Some (1595260800000 :: int)"
  let ?a = "\<lparr>data = \<lparr>day = 0, season = 11, seriesIndex = 0, gameStart = True\<rparr>\<rparr>"
  let ?b = "\<lparr>data = \<lparr>day = 0, season = 11, seriesIndex = 1, gameStart = False\<rparr>\<rparr>"
  let ?c = "\<lparr>data = \<lparr>day = 1, season = 11, seriesIndex = 2, gameStart = False\<rparr>\<rparr>"
  let ?gs = "[?a, ?b, ?c]"
  let ?g0 = "\<lparr>day = 0, season = 11, seriesIndex = 0, gameStart = True, visibleOnSite = True\<rparr>"
  let ?g1 = "\<lparr>day = 0, season = 11, seriesIndex = 1, gameStart = False, visibleOnSite = True\<rparr>"
  let ?g2 = "\<lparr>day = 1, season = 11, seriesIndex = 2, gameStart = False, visibleOnSite = False\<rparr>"
  let ?B1 = "gamesByDay (scheduleLoop ?z 11 ?s [?a])"
  let ?B2 = "gamesByDay (scheduleLoop ?z 11 ?s [?a, ?b])"
  let ?B3 = "gamesByDay (scheduleLoop ?z 11 ?s ?gs)"
  have st: "currGameDate (scheduleLoop ?z 11 ?s [?a]) = Some 1595260800000"
    "currGameDate (scheduleLoop ?z 11 ?s [?a, ?b]) = Some 1595260800000"
    "currGameDate (scheduleLoop ?z 11 ?s ?gs) = Some 1595264400000"
    by (simp_all add: scheduleLoop_def initial_state_def advanceClock_def isNewGameDay_def Let_def
        setHours_getHours TimeClip_def msPerHour_def msPerDay_def)
  have tk: "take 0 ?gs = []" "take (Suc 0) ?gs = [?a]" "take (Suc (Suc 0)) ?gs = [?a, ?b]"
    "take (Suc (Suc (Suc 0))) ?gs = ?gs"
    by simp_all
  have cp: "storedCopy ?gs 0 = ?g0" "storedCopy ?gs (Suc 0) = ?g1" "storedCopy ?gs (Suc (Suc 0)) = ?g2"
    by (simp_all add: withVisibility_def)
  from st(3) have valid: "currGameDate (scheduleLoop ?z 11 ?s ?gs) \<noteq> None" by simp
  note step = games_bucketed_by_day_and_hour [OF valid, THEN conjunct1, rule_format]
  have b0: "bucketsBefore ?z 11 ?s ?gs 0 = []"
    by (simp add: initial_state_def)
  have "bucketsBefore ?z 11 ?s ?gs (Suc 0) =
          bucketsBefore ?z 11 ?s ?gs 0 @
            [\<lparr>dayOfMonth = getDate ?z (stampOf ?z 11 ?s ?gs 0),
              startingDate = stampOf ?z 11 ?s ?gs 0,
              gamesByHourOfDay = [(getHours ?z (stampOf ?z 11 ?s ?gs 0), [storedCopy ?gs 0])]\<rparr>]"
    by (rule step [of 0, THEN conjunct1, rule_format]) (simp_all only: b0, simp_all)
  then have B1: "?B1 = [\<lparr>dayOfMonth = Some 20, startingDate = ?s, gamesByHourOfDay = [(Some 16, [?g0])]\<rparr>]"
    unfolding b0 cp tk st july_20 by (simp add: initial_state_def)
  have s1: "length ?B2 = length ?B1 \<and> dayOfMonth (?B2 ! 0) = dayOfMonth (?B1 ! 0)
      \<and> startingDate (?B2 ! 0) = startingDate (?B1 ! 0)
      \<and> map_of (gamesByHourOfDay (?B2 ! 0)) =
           (map_of (gamesByHourOfDay (?B1 ! 0)))
             (Some 16 \<mapsto> (case map_of (gamesByHourOfDay (?B1 ! 0)) (Some 16) of
                               None \<Rightarrow> [?g1] | Some xs \<Rightarrow> xs @ [?g1]))"
    using step [of "Suc 0", THEN conjunct2, rule_format, of 0]
    unfolding cp tk st july_20 by (simp add: B1)
  then have B2: "length ?B2 = 1" "dayOfMonth (?B2 ! 0) = Some 20" "startingDate (?B2 ! 0) = ?s"
    "map_of (gamesByHourOfDay (?B2 ! 0)) = [Some 16 \<mapsto> [?g0, ?g1]]"
    unfolding B1 by simp_all
  have s2: "length ?B3 = length ?B2 \<and> dayOfMonth (?B3 ! 0) = dayOfMonth (?B2 ! 0)
      \<and> startingDate (?B3 ! 0) = startingDate (?B2 ! 0)
      \<and> map_of (gamesByHourOfDay (?B3 ! 0)) =
           (map_of (gamesByHourOfDay (?B2 ! 0)))
             (Some 17 \<mapsto> (case map_of (gamesByHourOfDay (?B2 ! 0)) (Some 17) of
                               None \<Rightarrow> [?g2] | Some xs \<Rightarrow> xs @ [?g2]))"
    using step [of "Suc (Suc 0)", THEN conjunct2, rule_format, of 0]
    unfolding cp tk st july_20 by (simp add: B2)
  then have B3: "length ?B3 = 1" "dayOfMonth (?B3 ! 0) = Some 20" "startingDate (?B3 ! 0) = ?s"
    "map_of (gamesByHourOfDay (?B3 ! 0)) = [Some 16 \<mapsto> [?g0, ?g1], Some 17 \<mapsto> [?g2]]"
    unfolding B2 by simp_all
  from B1 B3 show ?thesis by simp
qed

text \<open>
  C4 as stated fails for an Invalid Date, the start date of a season whose start string
  is missing or does not parse. The day of month and the hour of every game are then
  NaN, and \<^verbatim>\<open>find\<close> compares with \<^verbatim>\<open>===\<close>, under which NaN is equal to nothing:
  the second of two games of the same day does not join the bucket of the first, whose
  day of month and hour are the same as its own, but gets a bucket to itself.
\<close>

theorem games_bucketed_by_day_and_hour_counterexample:
  "gamesByDay (scheduleLoop (fixedOffset 0) 11 None
      [\<lparr>data = \<lparr>day = 0, season = 11, seriesIndex = 0, gameStart = True\<rparr>\<rparr>,
       \<lparr>data = \<lparr>day = 0, season = 11, seriesIndex = 1, gameStart = False\<rparr>\<rparr>])
     = [\<lparr>dayOfMonth = None, startingDate = None,
         gamesByHourOfDay =
           [(None, [\<lparr>day = 0, season = 11, seriesIndex = 0, gameStart = True, visibleOnSite = True\<rparr>])]\<rparr>,
        \<lparr>dayOfMonth = None, startingDate = None,
         gamesByHourOfDay =
           [(None, [\<lparr>day = 0, season = 11, seriesIndex = 1, gameStart = False, visibleOnSite = True\<rparr>])]\<rparr>]"
  by (simp add: scheduleLoop_def initial_state_def loopBody_def placeGame_def advanceClock_day_0
      getDate_def getHours_def addToBuckets_Nil addToBuckets_Cons strictEq_def withVisibility_def Let_def)

text \<open>
  C5, as amended. With the schedule validating, or the schedule, the selected season or
  the season start dates missing, the bucketing returns nothing and the component renders
  the loading skeleton. With the team or the teams missing the component renders the
  loading skeleton as well; the bucketing reads neither, and returns a result whenever
  the other four inputs are there.
\<close>

theorem missing_inputs_render_loading:
  "(scheduleIsValidating props \<or> schedule props = None \<or> selectedSeason props = None
      \<or> seasonStartDates props = None \<longrightarrow>
        seasonScheduleByDate z parseDate props = None
        \<and> TeamSchedule z parseDate showForbiddenKnowledge props = TeamDailyScheduleLoading)
   \<and> (team props = None \<or> teams props = None \<longrightarrow>
        TeamSchedule z parseDate showForbiddenKnowledge props = TeamDailyScheduleLoading)
   \<and> (\<not> scheduleIsValidating props \<and> schedule props \<noteq> None \<and> selectedSeason props \<noteq> None
      \<and> seasonStartDates props \<noteq> None \<longrightarrow>
        seasonScheduleByDate z parseDate props \<noteq> None)
   \<and> seasonScheduleByDate z parseDate (props\<lparr>team := t, teams := ts\<rparr>)
        = seasonScheduleByDate z parseDate props"
proof (intro conjI impI)
  assume a: "scheduleIsValidating props \<or> schedule props = None \<or> selectedSeason props = None
      \<or> seasonStartDates props = None"
  then show "seasonScheduleByDate z parseDate props = None"
    by (auto simp add: seasonScheduleByDate_def split: option.splits)
  then show "TeamSchedule z parseDate showForbiddenKnowledge props = TeamDailyScheduleLoading"
    by (simp add: TeamSchedule_def)
next
  assume "team props = None \<or> teams props = None"
  then show "TeamSchedule z parseDate showForbiddenKnowledge props = TeamDailyScheduleLoading"
    by (auto simp add: TeamSchedule_def split: option.splits)
next
  assume "\<not> scheduleIsValidating props \<and> schedule props \<noteq> None \<and> selectedSeason props \<noteq> None
      \<and> seasonStartDates props \<noteq> None"
  then show "seasonScheduleByDate z parseDate props \<noteq> None"
    by (auto simp add: seasonScheduleByDate_def)
next
  show "seasonScheduleByDate z parseDate (props\<lparr>team := t, teams := ts\<rparr>)
          = seasonScheduleByDate z parseDate props"
    by (simp add: seasonScheduleByDate_def split: option.split)
qed

theorem missing_inputs_render_loading_witness:
  "seasonScheduleByDate (fixedOffset 0)
      (\<lambda>s. if s = ''2020-07-20 16:00:00 UTC'' then Some 1595260800000 else None)
      \<lparr>schedule = Some [\<lparr>data = \<lparr>day = 0, season = 0, seriesIndex = 0, gameStart = True\<rparr>\<rparr>],
       scheduleIsValidating = False,
       seasonStartDates = None,
       selectedSeason = Some 0,
       team = Some ''tigers'', teams = Some [''tigers'', ''crabs'']\<rparr> = None
   \<and> TeamSchedule (fixedOffset 0)
      (\<lambda>s. if s = ''2020-07-20 16:00:00 UTC'' then Some 1595260800000 else None) False
      \<lparr>schedule = Some [\<lparr>data = \<lparr>day = 0, season = 0, seriesIndex = 0, gameStart = True\<rparr>\<rparr>],
       scheduleIsValidating = False,
       seasonStartDates = None,
       selectedSeason = Some 0,
       team = Some ''tigers'', teams = Some [''tigers'', ''crabs'']\<rparr> = TeamDailyScheduleLoading
   \<and> TeamSchedule (fixedOffset 0)
      (\<lambda>s. if s = ''2020-07-20 16:00:00 UTC'' then Some 1595260800000 else None) False
      \<lparr>schedule = Some [\<lparr>data = \<lparr>day = 0, season = 0, seriesIndex = 0, gameStart = True\<rparr>\<rparr>],
       scheduleIsValidating = False,
       seasonStartDates = Some (\<lambda>s. if s = 0 then Some ''2020-07-20 16:00:00'' else None),
       selectedSeason = Some 0,
       team = None, teams = Some [''tigers'', ''crabs'']\<rparr> = TeamDailyScheduleLoading
   \<and> seasonScheduleByDate (fixedOffset 0)
      (\<lambda>s. if s = ''2020-07-20 16:00:00 UTC'' then Some 1595260800000 else None)
      \<lparr>schedule = Some [\<lparr>data = \<lparr>day = 0, season = 0, seriesIndex = 0, gameStart = True\<rparr>\<rparr>],
       scheduleIsValidating = False,
       seasonStartDates = Some (\<lambda>s. if s = 0 then Some ''2020-07-20 16:00:00'' else None),
       selectedSeason = Some 0,
       team = None, teams = Some [''tigers'', ''crabs'']\<rparr> \<noteq> None"
proof -
  let ?parse = "\<lambda>s. if s = ''2020-07-20 16:00:00 UTC'' then Some (1595260800000 :: int) else None"
  let ?p1 = "\<lparr>schedule = Some [\<lparr>data = \<lparr>day = 0, season = 0, seriesIndex = 0, gameStart = True\<rparr>\<rparr>],
       scheduleIsValidating = False,
       seasonStartDates = None,
       selectedSeason = Some 0,
       team = Some ''tigers'', teams = Some [''tigers'', ''crabs'']\<rparr>"
  let ?p2 = "\<lparr>schedule = Some [\<lparr>data = \<lparr>day = 0, season = 0, seriesIndex = 0, gameStart = True\<rparr>\<rparr>],
       scheduleIsValidating = False,
       seasonStartDates = Some (\<lambda>s. if s = 0 then Some ''2020-07-20 16:00:00'' else None),
       selectedSeason = Some 0,
       team = None, teams = Some [''tigers'', ''crabs'']\<rparr>"
  from missing_inputs_render_loading [of ?p1 "fixedOffset 0" ?parse False]
  have a: "seasonScheduleByDate (fixedOffset 0) ?parse ?p1 = None
       \<and> TeamSchedule (fixedOffset 0) ?parse False ?p1 = TeamDailyScheduleLoading"
    by simp
  from missing_inputs_render_loading [of ?p2 "fixedOffset 0" ?parse False]
  have b: "TeamSchedule (fixedOffset 0) ?parse False ?p2 = TeamDailyScheduleLoading"
    by simp
  from missing_inputs_render_loading [of ?p2 "fixedOffset 0" ?parse False]
  have c: "seasonScheduleByDate (fixedOffset 0) ?parse ?p2 \<noteq> None"
    by simp
  from a b c show ?thesis by blast
qed

text \<open>
  C5 as stated fails in its second half: with \<^verbatim>\<open>team\<close> and \<^verbatim>\<open>teams\<close> null and the
  other inputs present, the bucketing does return its buckets.
\<close>

theorem missing_inputs_render_loading_counterexample:
  "seasonScheduleByDate (fixedOffset 0)
      (\<lambda>s. if s = ''2020-07-20 16:00:00 UTC'' then Some 1595260800000 else None)
      \<lparr>schedule = Some [\<lparr>data = \<lparr>day = 0, season = 0, seriesIndex = 0, gameStart = True\<rparr>\<rparr>],
       scheduleIsValidating = False,
       seasonStartDates = Some (\<lambda>s. if s = 0 then Some ''2020-07-20 16:00:00'' else None),
       selectedSeason = Some 0,
       team = None, teams = None\<rparr>
     = Some [\<lparr>dayOfMonth = Some 20, startingDate = Some 1595260800000,
               gamesByHourOfDay =
                 [(Some 16, [\<lparr>day = 0, season = 0, seriesIndex = 0, gameStart = True,
                               visibleOnSite = True\<rparr>])]\<rparr>]"
  by (simp add: seasonScheduleByDate_def seasonStartDate_def TimeClip_def scheduleLoop_def
      initial_state_def loopBody_def placeGame_def advanceClock_day_0 july_20 addToBuckets_Nil
      withVisibility_def Let_def)

text \<open>
  C6, as amended. The search results render, on an error, the box asking to refresh the
  page and nothing else; else, while loading, the loading message; else, for a result
  object without keys, the text "No results found.". The team batting table renders the
  message that no results are available, in the place of the table content, when the
  memoised splits are an empty list: on a render that computes the memo (the first one,
  or one whose \<^verbatim>\<open>isPostseason\<close>, \<^verbatim>\<open>splitView\<close> or \<^verbatim>\<open>statTargetName\<close> differs from
  the kept dependencies) with an empty list of splits, and on a render with the kept
  dependencies when the kept value is the empty list.
\<close>

theorem placeholder_rendering:
  "(isError \<longrightarrow>
      SearchResults isError isLoading searchResults =
        Inr (Node ''Box'' []
          [Text ''Sorry, we're having trouble processing your search. Please refresh the page.'']))
   \<and> (\<not> isError \<and> isLoading \<longrightarrow>
      SearchResults isError isLoading searchResults =
        Inr (Node ''Box'' [] [Text ''Loading search results...'']))
   \<and> (\<not> isError \<and> \<not> isLoading \<and> map fst searchResults = [] \<longrightarrow>
      SearchResults isError isLoading searchResults =
        Inr (Node ''Fragment'' [] [Node ''Box'' [] [Text ''No results found.''], algoliaLogo]))
   \<and> (splits battingStats = Some [] \<and> (\<forall>v. cell \<noteq> Some ((isPostseason, splitView, statTargetName), v)) \<longrightarrow>
      (\<exists>heading. fst (TeamBattingStatTable cell battingStats isPostseason splitView statTargetName) =
         Node ''Table'' [] [heading, Text ''Sorry, no results available for this season.'']))
   \<and> (cell = Some ((isPostseason, splitView, statTargetName), Some []) \<longrightarrow>
      (\<exists>heading. fst (TeamBattingStatTable cell battingStats isPostseason splitView statTargetName) =
         Node ''Table'' [] [heading, Text ''Sorry, no results available for this season.'']))"
proof (intro conjI impI)
  assume "splits battingStats = Some [] \<and> (\<forall>v. cell \<noteq> Some ((isPostseason, splitView, statTargetName), v))"
  then have "fst (useMemo cell (\<lambda>_. splits battingStats) (isPostseason, splitView, statTargetName)) = Some []"
    by (cases cell) (auto simp add: useMemo_def)
  then show "\<exists>heading. fst (TeamBattingStatTable cell battingStats isPostseason splitView statTargetName) =
         Node ''Table'' [] [heading, Text ''Sorry, no results available for this season.'']"
    by (simp add: TeamBattingStatTable_def split_beta)
next
  assume "cell = Some ((isPostseason, splitView, statTargetName), Some [])"
  then have "fst (useMemo cell (\<lambda>_. splits battingStats) (isPostseason, splitView, statTargetName)) = Some []"
    by (simp add: useMemo_def)
  then show "\<exists>heading. fst (TeamBattingStatTable cell battingStats isPostseason splitView statTargetName) =
         Node ''Table'' [] [heading, Text ''Sorry, no results available for this season.'']"
    by (simp add: TeamBattingStatTable_def split_beta)
qed (simp_all add: SearchResults_def)

theorem placeholder_rendering_witness:
  "SearchResults True False
       [(''players'', Some [\<lparr>objectID = ''1'', anchor = ''/players/jt'', title = ''Jessica Telephone''\<rparr>])]
     = Inr (Node ''Box'' []
          [Text ''Sorry, we're having trouble processing your search. Please refresh the page.''])
   \<and> SearchResults False True [] = Inr (Node ''Box'' [] [Text ''Loading search results...''])
   \<and> SearchResults False False []
     = Inr (Node ''Fragment'' [] [Node ''Box'' [] [Text ''No results found.''], algoliaLogo])
   \<and> (\<exists>heading. fst (TeamBattingStatTable None \<lparr>splits = Some ([] :: nat list)\<rparr> False ''11'' ''Tigers'') =
         Node ''Table'' [] [heading, Text ''Sorry, no results available for this season.''])
   \<and> (\<exists>heading. fst (TeamBattingStatTable (Some ((False, ''10'', ''Tigers''), Some [7]))
                        \<lparr>splits = Some ([] :: nat list)\<rparr> False ''11'' ''Tigers'') =
         Node ''Table'' [] [heading, Text ''Sorry, no results available for this season.''])
   \<and> (\<exists>heading. fst (TeamBattingStatTable (Some ((False, ''11'', ''Tigers''), Some []))
                        \<lparr>splits = Some ([7] :: nat list)\<rparr> False ''11'' ''Tigers'') =
         Node ''Table'' [] [heading, Text ''Sorry, no results available for this season.''])"
proof -
  let ?none = "None :: (bool \<times> string \<times> string, nat list option) memoCell"
  from placeholder_rendering [of True False
      "[(''players'', Some [\<lparr>objectID = ''1'', anchor = ''/players/jt'', title = ''Jessica Telephone''\<rparr>])]"
      "\<lparr>splits = Some ([] :: nat list)\<rparr>" ?none False "''11''" "''Tigers''"]
  have a: "SearchResults True False
       [(''players'', Some [\<lparr>objectID = ''1'', anchor = ''/players/jt'', title = ''Jessica Telephone''\<rparr>])]
     = Inr (Node ''Box'' []
          [Text ''Sorry, we're having trouble processing your search. Please refresh the page.''])"
    by simp
  from placeholder_rendering [of False True "[]" "\<lparr>splits = Some ([] :: nat list)\<rparr>" ?none False "''11''" "''Tigers''"]
  have b: "SearchResults False True [] = Inr (Node ''Box'' [] [Text ''Loading search results...''])"
    by simp
  from placeholder_rendering [of False False "[]" "\<lparr>splits = Some ([] :: nat list)\<rparr>" ?none False "''11''" "''Tigers''"]
  have c: "SearchResults False False []
     = Inr (Node ''Fragment'' [] [Node ''Box'' [] [Text ''No results found.''], algoliaLogo])"
    by simp
  from placeholder_rendering [of False False "[]" "\<lparr>splits = Some ([] :: nat list)\<rparr>" ?none False "''11''" "''Tigers''"]
  have d: "\<exists>heading. fst (TeamBattingStatTable None \<lparr>splits = Some ([] :: nat list)\<rparr> False ''11'' ''Tigers'') =
         Node ''Table'' [] [heading, Text ''Sorry, no results available for this season.'']"
    by simp
  from placeholder_rendering [of False False "[]" "\<lparr>splits = Some ([] :: nat list)\<rparr>"
      "Some ((False, ''10'', ''Tigers''), Some [7])" False "''11''" "''Tigers''"]
  have e: "\<exists>heading. fst (TeamBattingStatTable (Some ((False, ''10'', ''Tigers''), Some [7]))
                        \<lparr>splits = Some ([] :: nat list)\<rparr> False ''11'' ''Tigers'') =
         Node ''Table'' [] [heading, Text ''Sorry, no results available for this season.'']"
    by simp
  from placeholder_rendering [of False False "[]" "\<lparr>splits = Some ([7] :: nat list)\<rparr>"
      "Some ((False, ''11'', ''Tigers''), Some [])" False "''11''" "''Tigers''"]
  have f: "\<exists>heading. fst (TeamBattingStatTable (Some ((False, ''11'', ''Tigers''), Some []))
                        \<lparr>splits = Some ([7] :: nat list)\<rparr> False ''11'' ''Tigers'') =
         Node ''Table'' [] [heading, Text ''Sorry, no results available for this season.'']"
    by simp
  from a b c d e f show ?thesis by blast
qed

text \<open>
  C6 as stated fails on a later render of the table. After a render with one row of
  splits, a render with the same \<^verbatim>\<open>isPostseason\<close>, \<^verbatim>\<open>splitView\<close> and
  \<^verbatim>\<open>statTargetName\<close> and an empty list of splits still shows the table content: the
  memo of \<^verbatim>\<open>data\<close> does not have \<^verbatim>\<open>battingStats\<close> among its dependencies. The
  pitching table memoises its \<^verbatim>\<open>data\<close> in the same way, on \<^verbatim>\<open>statTargetName\<close> alone.
\<close>

theorem placeholder_rendering_counterexample:
  "snd (TeamBattingStatTable None \<lparr>splits = Some [7 :: nat]\<rparr> False ''11'' ''Tigers'')
     = Some ((False, ''11'', ''Tigers''), Some [7])
   \<and> fst (TeamBattingStatTable (Some ((False, ''11'', ''Tigers''), Some [7]))
            \<lparr>splits = Some ([] :: nat list)\<rparr> False ''11'' ''Tigers'')
     = Node ''Table'' []
         [Node ''Flex'' [(''alignContent'', ''baseline''), (''justifyContent'', ''space-between'')]
            [Node ''Table.Heading'' [(''level'', ''h3''), (''size'', ''sm'')] [Text ''Batting Stats''],
             Node ''Flex'' [(''alignItems'', ''center'')]
               [Node ''Table.CSVExport'' [(''filename'', ''Tigers 11 Standard Batting Stats.csv'')] []]],
          Node ''Table.Content'' [] []]"
  by (simp add: TeamBattingStatTable_def useMemo_def)

text \<open>
  C7. For the list of teams the API returned, the static paths are one path
  \<^verbatim>\<open>/teams/{url_slug}/schedule\<close> for each team, in order, the slug unchanged; and the
  requests of the page carry the route parameter \<^verbatim>\<open>teamSlug\<close> unchanged.
\<close>

theorem schedule_paths_pass_slug_through:
  "getStaticPaths (Some ts) =
     Inr \<lparr>paths = map (\<lambda>t. ''/teams/'' @ url_slug t @ ''/schedule'') ts, fallback = False\<rparr>
   \<and> (\<forall>r. getStaticPaths (Some ts) = Inr r \<longrightarrow>
         length (paths r) = length ts
         \<and> (\<forall>i < length ts. paths r ! i = ''/teams/'' @ url_slug (ts ! i) @ ''/schedule''))
   \<and> map snd (TeamSchedulePage_keys teamSlug)
       = [''/teams/'' @ teamSlug @ ''/schedule.json'', ''/seasonStartDates.json'',
          ''/teams/'' @ teamSlug, ''/teams'']
   \<and> map snd (getStaticProps_requests teamSlug)
       = [''/teams/'' @ teamSlug @ ''/schedule.json'', ''/seasonStartDates.json'',
          ''/teams/'' @ teamSlug, ''/teams'']"
  by (auto simp add: getStaticPaths_def TeamSchedulePage_keys_def getStaticProps_requests_def)

theorem schedule_paths_pass_slug_through_witness:
  "getStaticPaths (Some [\<lparr>url_slug = ''tigers''\<rparr>, \<lparr>url_slug = ''crabs''\<rparr>]) =
     Inr \<lparr>paths = [''/teams/tigers/schedule'', ''/teams/crabs/schedule''], fallback = False\<rparr>
   \<and> map snd (TeamSchedulePage_keys ''tigers'')
       = [''/teams/tigers/schedule.json'', ''/seasonStartDates.json'', ''/teams/tigers'', ''/teams'']"
  using schedule_paths_pass_slug_through [of "[\<lparr>url_slug = ''tigers''\<rparr>, \<lparr>url_slug = ''crabs''\<rparr>]" "''tigers''"]
  by simp



text \<open>
  C9. A stored game is a copy of an input game with the one field \<^verbatim>\<open>visibleOnSite\<close>
  added: without that field the stored games are the input games, every field and the
  extension part included. The routine assigns to no field of an input game.
\<close>

theorem stored_games_are_copies:
  "mset (map withoutVisibility (allGames (gamesByDay (scheduleLoop tz sel start gs))))
     = mset (map data gs)
   \<and> (\<forall>g \<in> set (allGames (gamesByDay (scheduleLoop tz sel start gs))).
         \<exists>c \<in> set gs. g = withVisibility (data c) (visibleOnSite g))"
proof -
  let ?R = "gamesByDay (scheduleLoop tz sel start gs)"
  let ?P = "trace tz sel (initial_state start) gs"
  have all: "mset (allGames ?R) = mset (map snd ?P)"
    by (simp add: scheduleLoop_def loop_allGames initial_buckets)
  have copies: "map withoutVisibility (map snd ?P) = map data gs"
    unfolding trace_games by (rule nth_equalityI) simp_all
  have "mset (map withoutVisibility (allGames ?R)) = image_mset withoutVisibility (mset (allGames ?R))"
    by simp
  also have "\<dots> = mset (map withoutVisibility (map snd ?P))"
    unfolding all by (simp only: mset_map)
  finally have first: "mset (map withoutVisibility (allGames ?R)) = mset (map data gs)"
    unfolding copies .
  have second: "\<exists>c \<in> set gs. g = withVisibility (data c) (visibleOnSite g)"
    if "g \<in> set (allGames ?R)" for g
  proof -
    from that have "g \<in># mset (allGames ?R)" by simp
    then have "g \<in> set (map snd ?P)" unfolding all by simp
    then obtain i where i: "i < length gs" and g: "g = snd (?P ! i)"
      by (auto simp add: in_set_conv_nth trace_length)
    from i have "gs ! i \<in> set gs" by simp
    moreover from i g have "g = withVisibility (data (gs ! i)) (visibleOnSite g)"
      by (simp add: trace_game)
    ultimately show ?thesis by blast
  qed
  from first second show ?thesis by blast
qed

theorem stored_games_are_copies_witness:
  "mset (map withoutVisibility (allGames (gamesByDay (scheduleLoop (fixedOffset 0) 11 (Some 1595260800000)
      [\<lparr>data = \<lparr>day = 0, season = 11, seriesIndex = 0, gameStart = True, \<dots> = ''Tigers''\<rparr>\<rparr>,
       \<lparr>data = \<lparr>day = 1, season = 11, seriesIndex = 0, gameStart = False, \<dots> = ''Crabs''\<rparr>\<rparr>]))))
   = {#\<lparr>day = 0, season = 11, seriesIndex = 0, gameStart = True, \<dots> = ''Tigers''\<rparr>,
       \<lparr>day = 1, season = 11, seriesIndex = 0, gameStart = False, \<dots> = ''Crabs''\<rparr>#}"
  using stored_games_are_copies [of "fixedOffset 0" 11 "Some 1595260800000"
      "[\<lparr>data = \<lparr>day = 0, season = 11, seriesIndex = 0, gameStart = True, \<dots> = ''Tigers''\<rparr>\<rparr>,
       \<lparr>data = \<lparr>day = 1, season = 11, seriesIndex = 0, gameStart = False, \<dots> = ''Crabs''\<rparr>\<rparr>]"]
  by simp

text \<open>
  C10, as amended. While the running timestamp is a valid date: no two day buckets have
  the same day of month; every game is in a bucket that has the day of month of its
  timestamp, under the hour of its timestamp; and the starting date of that bucket is
  the timestamp of the first game with this day of month, whatever the months of the two
  timestamps are.
\<close>

theorem one_bucket_per_day_of_month:
  assumes "currGameDate (scheduleLoop z sel start gs) \<noteq> None"
  shows "(\<forall>i j. i < length (gamesByDay (scheduleLoop z sel start gs))
            \<and> j < length (gamesByDay (scheduleLoop z sel start gs))
            \<and> dayOfMonth (gamesByDay (scheduleLoop z sel start gs) ! i)
                = dayOfMonth (gamesByDay (scheduleLoop z sel start gs) ! j)
          \<longrightarrow> i = j)
       \<and> (\<forall>j < length gs. \<exists>k < length (gamesByDay (scheduleLoop z sel start gs)).
            dayOfMonth (gamesByDay (scheduleLoop z sel start gs) ! k) = getDate z (stampOf z sel start gs j)
          \<and> (\<exists>xs. (getHours z (stampOf z sel start gs j), xs)
                      \<in> set (gamesByHourOfDay (gamesByDay (scheduleLoop z sel start gs) ! k))
                   \<and> storedCopy gs j \<in> set xs)
          \<and> (\<exists>j0 \<le> j. startingDate (gamesByDay (scheduleLoop z sel start gs) ! k) = stampOf z sel start gs j0
                   \<and> getDate z (stampOf z sel start gs j0) = getDate z (stampOf z sel start gs j)
                   \<and> (\<forall>j' < j0. getDate z (stampOf z sel start gs j') \<noteq> getDate z (stampOf z sel start gs j))))"
proof (intro conjI allI impI)
  let ?R = "gamesByDay (scheduleLoop z sel start gs)"
  fix i j
  assume "i < length ?R \<and> j < length ?R \<and> dayOfMonth (?R ! i) = dayOfMonth (?R ! j)"
  then have "i < length (map dayOfMonth ?R)" "j < length (map dayOfMonth ?R)"
    "map dayOfMonth ?R ! i = map dayOfMonth ?R ! j"
    by simp_all
  with valid_distinct_days [OF assms] show "i = j"
    using nth_eq_iff_index_eq by blast
next
  let ?R = "gamesByDay (scheduleLoop z sel start gs)"
  fix j
  assume j: "j < length gs"
  let ?d = "getDate z (stampOf z sel start gs j)"
  have R: "bucketsBefore z sel start gs (length gs) = ?R" by simp
  note inv = bucket_origin [OF assms order_refl, unfolded R]
  from inv j have "?d \<in> fst ` set (map (\<lambda>b. (dayOfMonth b, startingDate b)) ?R)"
    by blast
  then obtain b where b: "b \<in> set ?R" "dayOfMonth b = ?d"
    by auto
  from b(1) have "(\<lambda>b. (dayOfMonth b, startingDate b)) b \<in> (\<lambda>b. (dayOfMonth b, startingDate b)) ` set ?R"
    by (rule imageI)
  then have "(dayOfMonth b, startingDate b) \<in> set (map (\<lambda>b. (dayOfMonth b, startingDate b)) ?R)"
    by simp
  moreover from inv have "\<forall>p \<in> set (map (\<lambda>b. (dayOfMonth b, startingDate b)) ?R).
            \<exists>j0 < length gs. snd p = stampOf z sel start gs j0 \<and> fst p = getDate z (stampOf z sel start gs j0)
              \<and> (\<forall>j' < j0. getDate z (stampOf z sel start gs j') \<noteq> fst p)"
    by (rule conjunct1)
  ultimately have "\<exists>j0 < length gs. snd (dayOfMonth b, startingDate b) = stampOf z sel start gs j0
      \<and> fst (dayOfMonth b, startingDate b) = getDate z (stampOf z sel start gs j0)
      \<and> (\<forall>j' < j0. getDate z (stampOf z sel start gs j') \<noteq> fst (dayOfMonth b, startingDate b))"
    by (rule bspec [rotated])
  then obtain j0 where "j0 < length gs \<and> startingDate b = stampOf z sel start gs j0
      \<and> dayOfMonth b = getDate z (stampOf z sel start gs j0)
      \<and> (\<forall>j' < j0. getDate z (stampOf z sel start gs j') \<noteq> dayOfMonth b)"
    unfolding fst_conv snd_conv ..
  then have j0: "startingDate b = stampOf z sel start gs j0"
      "dayOfMonth b = getDate z (stampOf z sel start gs j0)"
      "\<forall>j' < j0. getDate z (stampOf z sel start gs j') \<noteq> dayOfMonth b"
    by blast+
  have le: "j0 \<le> j"
  proof (rule ccontr)
    assume "\<not> j0 \<le> j"
    then have "j < j0" by simp
    with j0(3) have "getDate z (stampOf z sel start gs j) \<noteq> dayOfMonth b" by (elim allE impE)
    with b(2) show False by simp
  qed
  from b(1) obtain k where k: "k < length ?R" "?R ! k = b"
    unfolding in_set_conv_nth by blast
  have m: "\<exists>xs. (getHours z (stampOf z sel start gs j), xs) \<in> set (gamesByHourOfDay b)
              \<and> storedCopy gs j \<in> set xs"
    using assms j b by (rule game_in_hour_bucket)
  have c3: "\<exists>j0 \<le> j. startingDate b = stampOf z sel start gs j0
               \<and> getDate z (stampOf z sel start gs j0) = ?d
               \<and> (\<forall>j' < j0. getDate z (stampOf z sel start gs j') \<noteq> ?d)"
  proof (intro exI conjI)
    show "j0 \<le> j" by (rule le)
    show "startingDate b = stampOf z sel start gs j0" by (rule j0(1))
    show "getDate z (stampOf z sel start gs j0) = ?d" using j0(2) b(2) by simp
    show "\<forall>j' < j0. getDate z (stampOf z sel start gs j') \<noteq> ?d" using j0(3) unfolding b(2) .
  qed
  have "dayOfMonth (?R ! k) = ?d
      \<and> (\<exists>xs. (getHours z (stampOf z sel start gs j), xs) \<in> set (gamesByHourOfDay (?R ! k))
               \<and> storedCopy gs j \<in> set xs)
      \<and> (\<exists>j0 \<le> j. startingDate (?R ! k) = stampOf z sel start gs j0
               \<and> getDate z (stampOf z sel start gs j0) = ?d
               \<and> (\<forall>j' < j0. getDate z (stampOf z sel start gs j') \<noteq> ?d))"
    unfolding k(2) using b(2) m c3 by (intro conjI)
  with k(1) have big: "k < length ?R \<and> (dayOfMonth (?R ! k) = ?d
      \<and> (\<exists>xs. (getHours z (stampOf z sel start gs j), xs) \<in> set (gamesByHourOfDay (?R ! k))
               \<and> storedCopy gs j \<in> set xs)
      \<and> (\<exists>j0 \<le> j. startingDate (?R ! k) = stampOf z sel start gs j0
               \<and> getDate z (stampOf z sel start gs j0) = ?d
               \<and> (\<forall>j' < j0. getDate z (stampOf z sel start gs j') \<noteq> ?d)))"
    by (rule conjI)
  show "\<exists>k < length ?R.
            dayOfMonth (?R ! k) = ?d
          \<and> (\<exists>xs. (getHours z (stampOf z sel start gs j), xs) \<in> set (gamesByHourOfDay (?R ! k))
                   \<and> storedCopy gs j \<in> set xs)
          \<and> (\<exists>j0 \<le> j. startingDate (?R ! k) = stampOf z sel start gs j0
                   \<and> getDate z (stampOf z sel start gs j0) = ?d
                   \<and> (\<forall>j' < j0. getDate z (stampOf z sel start gs j') \<noteq> ?d))"
    by (rule exI [of _ k]) (rule big)
qed

theorem one_bucket_per_day_of_month_witness:
  "currGameDate (scheduleLoop (fixedOffset 0) 8 (Some 1595260800000)
      [\<lparr>data = \<lparr>day = 0, season = 8, seriesIndex = 0, gameStart = True\<rparr>\<rparr>]) = Some 1595260800000
   \<and> currGameDate (scheduleLoop (fixedOffset 0) 8 (Some 1595260800000)
      [\<lparr>data = \<lparr>day = 0, season = 8, seriesIndex = 0, gameStart = True\<rparr>\<rparr>,
       \<lparr>data = \<lparr>day = 841, season = 8, seriesIndex = 0, gameStart = False\<rparr>\<rparr>]) = Some 1597939200000
   \<and> (YearFromTime 1595260800000, MonthFromTime 1595260800000, DateFromTime 1595260800000) = (2020, 6, 20)
   \<and> (YearFromTime 1597939200000, MonthFromTime 1597939200000, DateFromTime 1597939200000) = (2020, 7, 20)
   \<and> (\<exists>k < length (gamesByDay (scheduleLoop (fixedOffset 0) 8 (Some 1595260800000)
          [\<lparr>data = \<lparr>day = 0, season = 8, seriesIndex = 0, gameStart = True\<rparr>\<rparr>,
           \<lparr>data = \<lparr>day = 841, season = 8, seriesIndex = 0, gameStart = False\<rparr>\<rparr>])).
         dayOfMonth (gamesByDay (scheduleLoop (fixedOffset 0) 8 (Some 1595260800000)
          [\<lparr>data = \<lparr>day = 0, season = 8, seriesIndex = 0, gameStart = True\<rparr>\<rparr>,
           \<lparr>data = \<lparr>day = 841, season = 8, seriesIndex = 0, gameStart = False\<rparr>\<rparr>]) ! k) = Some 20
         \<and> startingDate (gamesByDay (scheduleLoop (fixedOffset 0) 8 (Some 1595260800000)
          [\<lparr>data = \<lparr>day = 0, season = 8, seriesIndex = 0, gameStart = True\<rparr>\<rparr>,
           \<lparr>data = \<lparr>day = 841, season = 8, seriesIndex = 0, gameStart = False\<rparr>\<rparr>]) ! k)
             = Some 1595260800000
         \<and> (\<exists>xs. (Some 16, xs) \<in> set (gamesByHourOfDay (gamesByDay (scheduleLoop (fixedOffset 0) 8
                (Some 1595260800000)
                [\<lparr>data = \<lparr>day = 0, season = 8, seriesIndex = 0, gameStart = True\<rparr>\<rparr>,
                 \<lparr>data = \<lparr>day = 841, season = 8, seriesIndex = 0, gameStart = False\<rparr>\<rparr>]) ! k))
              \<and> \<lparr>day = 0, season = 8, seriesIndex = 0, gameStart = True, visibleOnSite = True\<rparr> \<in> set xs)
         \<and> (\<exists>xs. (Some 16, xs) \<in> set (gamesByHourOfDay (gamesByDay (scheduleLoop (fixedOffset 0) 8
                (Some 1595260800000)
                [\<lparr>data = \<lparr>day = 0, season = 8, seriesIndex = 0, gameStart = True\<rparr>\<rparr>,
                 \<lparr>data = \<lparr>day = 841, season = 8, seriesIndex = 0, gameStart = False\<rparr>\<rparr>]) ! k))
              \<and> \<lparr>day = 841, season = 8, seriesIndex = 0, gameStart = False, visibleOnSite = True\<rparr> \<in> set xs))"
proof -
  let ?z = "fixedOffset 0"
  let ?s = "Some (1595260800000 :: int)"
  let ?a = "\<lparr>data = \<lparr>day = 0, season = 8, seriesIndex = 0, gameStart = True\<rparr>\<rparr>"
  let ?b = "\<lparr>data = \<lparr>day = 841, season = 8, seriesIndex = 0, gameStart = False\<rparr>\<rparr>"
  let ?gs = "[?a, ?b]"
  let ?g0 = "\<lparr>day = 0, season = 8, seriesIndex = 0, gameStart = True, visibleOnSite = True\<rparr>"
  let ?g1 = "\<lparr>day = 841, season = 8, seriesIndex = 0, gameStart = False, visibleOnSite = True\<rparr>"
  let ?R = "gamesByDay (scheduleLoop ?z 8 ?s ?gs)"
  have st: "currGameDate (scheduleLoop ?z 8 ?s [?a]) = Some 1595260800000"
    "currGameDate (scheduleLoop ?z 8 ?s ?gs) = Some 1597939200000"
    by (simp_all add: scheduleLoop_def initial_state_def advanceClock_def isNewGameDay_def Let_def
        setHours_getHours dsub_exact TimeClip_def msPerHour_def msPerDay_def)
  have tk: "take (Suc 0) ?gs = [?a]" "take (Suc (Suc 0)) ?gs = ?gs"
    by simp_all
  have cp: "storedCopy ?gs 0 = ?g0" "storedCopy ?gs (Suc 0) = ?g1"
    by (simp_all add: withVisibility_def)
  have cal: "(YearFromTime 1595260800000, MonthFromTime 1595260800000, DateFromTime 1595260800000) = (2020, 6, 20)"
    "(YearFromTime 1597939200000, MonthFromTime 1597939200000, DateFromTime 1597939200000) = (2020, 7, 20)"
    by (simp_all add: calendar_eval)
  from st(2) have valid: "currGameDate (scheduleLoop ?z 8 ?s ?gs) \<noteq> None" by simp
  note inst = one_bucket_per_day_of_month [OF valid]
  note uniq = inst [THEN conjunct1, rule_format]
  note place = inst [THEN conjunct2, rule_format]
  have "0 < length ?gs" by simp
  from place [OF this] obtain k where k: "k < length ?R"
    "dayOfMonth (?R ! k) = getDate ?z (stampOf ?z 8 ?s ?gs 0)"
    "\<exists>xs. (getHours ?z (stampOf ?z 8 ?s ?gs 0), xs) \<in> set (gamesByHourOfDay (?R ! k))
          \<and> storedCopy ?gs 0 \<in> set xs"
    "\<exists>j0 \<le> 0. startingDate (?R ! k) = stampOf ?z 8 ?s ?gs j0
          \<and> getDate ?z (stampOf ?z 8 ?s ?gs j0) = getDate ?z (stampOf ?z 8 ?s ?gs 0)
          \<and> (\<forall>j' < j0. getDate ?z (stampOf ?z 8 ?s ?gs j') \<noteq> getDate ?z (stampOf ?z 8 ?s ?gs 0))"
    by blast
  have "Suc 0 < length ?gs" by simp
  from place [OF this] obtain k' where k': "k' < length ?R"
    "dayOfMonth (?R ! k') = getDate ?z (stampOf ?z 8 ?s ?gs (Suc 0))"
    "\<exists>xs. (getHours ?z (stampOf ?z 8 ?s ?gs (Suc 0)), xs) \<in> set (gamesByHourOfDay (?R ! k'))
          \<and> storedCopy ?gs (Suc 0) \<in> set xs"
    by blast
  from k(2) have d: "dayOfMonth (?R ! k) = Some 20"
    unfolding tk st july_20 .
  from k'(2) have d': "dayOfMonth (?R ! k') = Some 20"
    unfolding tk st august_20 .
  from d d' have "dayOfMonth (?R ! k) = dayOfMonth (?R ! k')" by simp
  with k(1) k'(1) have same: "k' = k"
    using uniq [of k k'] by simp
  from k(3) have m0: "\<exists>xs. (Some 16, xs) \<in> set (gamesByHourOfDay (?R ! k)) \<and> ?g0 \<in> set xs"
    unfolding tk st july_20 cp .
  from k'(3) have m1: "\<exists>xs. (Some 16, xs) \<in> set (gamesByHourOfDay (?R ! k)) \<and> ?g1 \<in> set xs"
    unfolding tk st august_20 cp same .
  from k(4) have "startingDate (?R ! k) = stampOf ?z 8 ?s ?gs 0" by simp
  then have sd: "startingDate (?R ! k) = Some 1595260800000"
    unfolding tk st .
  from d sd m0 m1 have "dayOfMonth (?R ! k) = Some 20 \<and> startingDate (?R ! k) = Some 1595260800000
      \<and> (\<exists>xs. (Some 16, xs) \<in> set (gamesByHourOfDay (?R ! k)) \<and> ?g0 \<in> set xs)
      \<and> (\<exists>xs. (Some 16, xs) \<in> set (gamesByHourOfDay (?R ! k)) \<and> ?g1 \<in> set xs)"
    by (intro conjI)
  with k(1) have big: "k < length ?R \<and> (dayOfMonth (?R ! k) = Some 20 \<and> startingDate (?R ! k) = Some 1595260800000
      \<and> (\<exists>xs. (Some 16, xs) \<in> set (gamesByHourOfDay (?R ! k)) \<and> ?g0 \<in> set xs)
      \<and> (\<exists>xs. (Some 16, xs) \<in> set (gamesByHourOfDay (?R ! k)) \<and> ?g1 \<in> set xs))"
    by (rule conjI)
  have ex: "\<exists>k < length ?R. dayOfMonth (?R ! k) = Some 20 \<and> startingDate (?R ! k) = Some 1595260800000
      \<and> (\<exists>xs. (Some 16, xs) \<in> set (gamesByHourOfDay (?R ! k)) \<and> ?g0 \<in> set xs)
      \<and> (\<exists>xs. (Some 16, xs) \<in> set (gamesByHourOfDay (?R ! k)) \<and> ?g1 \<in> set xs)"
    by (rule exI [of _ k]) (rule big)
  from st cal ex show ?thesis
    by (intro conjI)
qed

text \<open>
  C10 as stated fails for an Invalid Date. The selected season 11 has no entry in
  \<^verbatim>\<open>seasonStartDates\<close>, so the start string is \<^verbatim>\<open>"undefined UTC"\<close> and the start
  date is invalid; each of the two games gets a bucket, and both buckets have the day
  of month NaN.
\<close>

theorem one_bucket_per_day_of_month_counterexample:
  "map_option (map dayOfMonth)
     (seasonScheduleByDate (fixedOffset 0)
        (\<lambda>s. if s = ''2020-07-20 16:00:00 UTC'' then Some 1595260800000 else None)
        \<lparr>schedule = Some [\<lparr>data = \<lparr>day = 0, season = 11, seriesIndex = 0, gameStart = True\<rparr>\<rparr>,
                          \<lparr>data = \<lparr>day = 1, season = 11, seriesIndex = 0, gameStart = False\<rparr>\<rparr>],
         scheduleIsValidating = False,
         seasonStartDates = Some (\<lambda>s. if s = 0 then Some ''2020-07-20 16:00:00'' else None),
         selectedSeason = Some 11,
         team = Some ''tigers'', teams = Some [''tigers'', ''crabs'']\<rparr>)
     = Some [None, None]"
  by (simp add: seasonScheduleByDate_def seasonStartDate_def invalid_start_date)

end
